theory Spec2Isabelle
  imports Main "HOL-Library.Word" "HOL-Library.AList"
begin

section \<open>Values shared by the view and its collaborators\<close>

text \<open>
  The embedding follows \<^verbatim>\<open>view.go\<close>. Go's \<^verbatim>\<open>uint64\<close> is a 64-bit word. An
  \<^verbatim>\<open>error\<close> value is either produced outside the view (by the operating system or by
  a fragment) or built by \<^verbatim>\<open>fmt.Errorf\<close>; the nil error is \<open>None\<close>. The variable
  that the code calls \<^verbatim>\<open>slice\<close> is written \<open>sl\<close>, since \<open>slice\<close> is an operation on words.
\<close>

type_synonym u64 = "64 word"

datatype error =
    ErrNotExist string
  | ErrOther string
  | ErrorString string

fun Error :: "error \<Rightarrow> string" where
  "Error (ErrNotExist m) = m"
| "Error (ErrOther m) = m"
| "Error (ErrorString m) = m"

text \<open>\<^verbatim>\<open>os.IsNotExist\<close>: false of the nil error.\<close>

fun IsNotExist :: "error option \<Rightarrow> bool" where
  "IsNotExist (Some (ErrNotExist m)) = True"
| "IsNotExist e = False"

text \<open>A \<^verbatim>\<open>*Fragment\<close> or \<^verbatim>\<open>*AttrStore\<close>: nil, or the address of an allocated object.\<close>

datatype ptr = nil | Ptr nat

datatype Writer = Discard | Writer nat

text \<open>
  The stats sink is an interface of the repository whose implementations are not part
  of \<^verbatim>\<open>view.go\<close>; a derived sink is kept symbolically.
\<close>

datatype StatsClient = NopStatsClient | StatsSink nat | WithTags StatsClient "string list"

record FileInfo =
  Name :: string
  IsDir :: bool

section \<open>Library functions used by the view\<close>

text \<open>
  Functions of Go's standard library, written out as far as the view uses them: the
  conversions between numbers and decimal text, and the lexical operations on paths.
\<close>

subsection \<open>\<^verbatim>\<open>strconv.FormatUint(n, 10)\<close> and \<^verbatim>\<open>strconv.ParseUint(s, 10, 64)\<close>\<close>

definition digit_char :: "nat \<Rightarrow> char" where
  "digit_char d = char_of (48 + d)"

fun FormatUint_nat :: "nat \<Rightarrow> string" where
  "FormatUint_nat n =
     (if n < 10 then [digit_char n]
      else FormatUint_nat (n div 10) @ [digit_char (n mod 10)])"

declare FormatUint_nat.simps [simp del]

definition FormatUint :: "u64 \<Rightarrow> string" where
  "FormatUint i = FormatUint_nat (unat i)"

datatype num_error = ErrSyntax | ErrRange

definition maxUint64 :: u64 where
  "maxUint64 = - 1"

definition cutoff :: u64 where
  "cutoff = maxUint64 div 10 + 1"

text \<open>
  One round of the loop of \<^verbatim>\<open>ParseUint\<close> for base 10: the byte's digit value (letters
  count from 10, as for larger bases), refused when it is not below the base.
\<close>

definition byte_digit :: "char \<Rightarrow> nat option" where
  "byte_digit c =
     (let b = (of_char c :: nat) in
      if 48 \<le> b \<and> b \<le> 57 then Some (b - 48)
      else if 97 \<le> b \<and> b \<le> 122 then Some (b - 97 + 10)
      else if 65 \<le> b \<and> b \<le> 90 then Some (b - 65 + 10)
      else None)"

fun ParseUint_loop :: "u64 \<Rightarrow> string \<Rightarrow> num_error + u64" where
  "ParseUint_loop n [] = Inr n"
| "ParseUint_loop n (c # cs) =
     (case byte_digit c of
        None \<Rightarrow> Inl ErrSyntax
      | Some d \<Rightarrow>
          if d \<ge> 10 then Inl ErrSyntax
          else if n \<ge> cutoff then Inl ErrRange
          else
            (let n10 = n * 10; n1 = n10 + of_nat d in
             if n1 < n10 \<or> n1 > maxUint64 then Inl ErrRange
             else ParseUint_loop n1 cs))"

definition ParseUint :: "string \<Rightarrow> num_error + u64" where
  "ParseUint s = (if s = [] then Inl ErrSyntax else ParseUint_loop 0 s)"

subsection \<open>\<^verbatim>\<open>filepath.Base\<close>, \<^verbatim>\<open>filepath.Clean\<close> and \<^verbatim>\<open>filepath.Join\<close> (Unix)\<close>

definition Separator :: char where
  "Separator = CHR ''/''"

definition Base :: "string \<Rightarrow> string" where
  "Base p =
     (if p = [] then ''.''
      else
        (let stripped = rev (dropWhile (\<lambda>c. c = Separator) (rev p));
             last_elem = rev (takeWhile (\<lambda>c. c \<noteq> Separator) (rev stripped))
         in if last_elem = [] then [Separator] else last_elem))"

text \<open>The path elements between separators, empty ones included.\<close>

fun split_sep :: "string \<Rightarrow> string list" where
  "split_sep [] = [[]]"
| "split_sep (c # cs) =
     (if c = Separator then [] # split_sep cs
      else (c # hd (split_sep cs)) # tl (split_sep cs))"

fun join_sep :: "string list \<Rightarrow> string" where
  "join_sep [] = []"
| "join_sep [e] = e"
| "join_sep (e # es) = e @ Separator # join_sep es"

text \<open>
  \<^verbatim>\<open>Clean\<close> reads the elements from left to right and keeps the cleaned ones on a
  stack (\<open>out\<close>, top first): empty elements and \<^verbatim>\<open>.\<close> are dropped, \<^verbatim>\<open>..\<close> removes the
  element before it, is dropped at the root, and is kept at the start of a relative
  path.
\<close>

fun clean_elems :: "bool \<Rightarrow> string list \<Rightarrow> string list \<Rightarrow> string list" where
  "clean_elems rooted out [] = rev out"
| "clean_elems rooted out (e # es) =
     (if e = [] \<or> e = ''.'' then clean_elems rooted out es
      else if e = ''..'' then
        (case out of
           [] \<Rightarrow> if rooted then clean_elems rooted out es
                 else clean_elems rooted [''..''] es
         | t # ts \<Rightarrow> if t = ''..'' then clean_elems rooted (''..'' # out) es
                     else clean_elems rooted ts es)
      else clean_elems rooted (e # out) es)"

definition Clean :: "string \<Rightarrow> string" where
  "Clean p =
     (if p = [] then ''.''
      else
        (let rooted = (hd p = Separator);
             cleaned = (if rooted then [Separator] else [])
                       @ join_sep (clean_elems rooted [] (split_sep p))
         in if cleaned = [] then ''.'' else cleaned))"

text \<open>\<^verbatim>\<open>Join\<close> skips leading empty elements, joins the rest and cleans the result.\<close>

definition Join :: "string list \<Rightarrow> string" where
  "Join elem =
     (case dropWhile (\<lambda>e. e = []) elem of
        [] \<Rightarrow> []
      | e # es \<Rightarrow> Clean (join_sep (e # es)))"

section \<open>Fragments and the world outside the view\<close>

text \<open>
  Modelled from the spec: the type \<^verbatim>\<open>Fragment\<close>, which the package declares outside
  \<^verbatim>\<open>view.go\<close>. The partition unit is identified by (path, database, frame, view, slice
  number), and has association points for the attribute store, a metrics sub-scope and a
  log sink. The view only constructs a fragment, sets these three fields, reads its slice
  and calls its methods, so a fragment is the record of the fields the view can see.
\<close>

record Fragment =
  frag_path :: string
  frag_db :: string
  frag_frame :: string
  frag_view :: string
  frag_slice :: u64
  frag_LogOutput :: Writer
  frag_stats :: StatsClient
  frag_BitmapAttrStore :: ptr

text \<open>
  Every call that leaves the view is recorded, in order: the trace is the history of the
  operating system, the fragments' storage and the stats sink as far as the view drives
  them.
\<close>

datatype event =
    MkdirAll string
  | OsOpen string
  | FileReaddir string
  | FileClose string
  | FragmentOpen ptr
  | FragmentClose ptr
  | FragmentSetBit ptr u64 u64
  | FragmentClearBit ptr u64 u64
  | StatsCount StatsClient string int

text \<open>
  The heap holds the allocated fragments (an address is an index into it); a fragment is
  only ever reached through a pointer, so two pointers are the same fragment exactly when
  they are equal.
\<close>

record world =
  heap :: "Fragment list"
  trace :: "event list"

text \<open>
  The results of the calls the view cannot see into, and the constant \<^verbatim>\<open>SliceWidth\<close>,
  which is declared elsewhere in the package. A result may depend on everything that
  happened before the call. Go rejects a division by a constant zero at compile time, so
  the constant is not zero.
\<close>

record env =
  SliceWidth :: u64
  os_MkdirAll :: "world \<Rightarrow> string \<Rightarrow> error option"
  os_Open :: "world \<Rightarrow> string \<Rightarrow> error option"
  File_Readdir :: "world \<Rightarrow> string \<Rightarrow> FileInfo list \<times> error option"
  Fragment_Open :: "world \<Rightarrow> ptr \<Rightarrow> error option"
  Fragment_Close :: "world \<Rightarrow> ptr \<Rightarrow> error option"
  Fragment_SetBit :: "world \<Rightarrow> ptr \<Rightarrow> u64 \<Rightarrow> u64 \<Rightarrow> bool \<times> error option"
  Fragment_ClearBit :: "world \<Rightarrow> ptr \<Rightarrow> u64 \<Rightarrow> u64 \<Rightarrow> bool \<times> error option"

definition log :: "event \<Rightarrow> world \<Rightarrow> world" where
  "log e w = w\<lparr>trace := trace w @ [e]\<rparr>"

text \<open>
  Modelled from the spec: \<^verbatim>\<open>NewFragment\<close> constructs a partition handle and performs no
  I/O. The handle is a fresh address, never nil. The three fields the view or its owner
  sets afterwards start at their zero values.
\<close>

definition NewFragment :: "string \<Rightarrow> string \<Rightarrow> string \<Rightarrow> string \<Rightarrow> u64 \<Rightarrow> world \<Rightarrow> nat \<times> world" where
  "NewFragment p d f n sl w =
     (length (heap w),
      w\<lparr>heap := heap w @
         [\<lparr>frag_path = p, frag_db = d, frag_frame = f, frag_view = n, frag_slice = sl,
           frag_LogOutput = Discard, frag_stats = NopStatsClient,
           frag_BitmapAttrStore = nil\<rparr>]\<rparr>)"

text \<open>
  Assignment to a field of the fragment at an address. The view assigns only to the
  fragment it has just constructed, whose address is in the heap.
\<close>

definition assign :: "nat \<Rightarrow> (Fragment \<Rightarrow> Fragment) \<Rightarrow> world \<Rightarrow> world" where
  "assign a f w = w\<lparr>heap := (heap w)[a := f (heap w ! a)]\<rparr>"

text \<open>
  Modelled from the spec: \<^verbatim>\<open>frag.Slice()\<close>, the slice identity accessor, returns the
  slice number the fragment was constructed with. The view calls it only on the fragment
  it has just constructed.
\<close>

definition Slice :: "world \<Rightarrow> nat \<Rightarrow> u64" where
  "Slice w a = frag_slice (heap w ! a)"

section \<open>The view\<close>

text \<open>
  The registry \<^verbatim>\<open>map[uint64]*Fragment\<close> is an association list with one entry per key; a
  \<^verbatim>\<open>range\<close> loop visits the entries in the order of the list, which stands for whatever
  order Go picks. The mutex is left out: the calls are modelled one at a time.
\<close>

record View =
  path :: string
  db :: string
  frame :: string
  name :: string
  fragments :: "(u64 \<times> ptr) list"
  stats :: StatsClient
  BitmapAttrStore :: ptr
  LogOutput :: Writer

definition NewView :: "string \<Rightarrow> string \<Rightarrow> string \<Rightarrow> string \<Rightarrow> View" where
  "NewView p d f n =
     \<lparr>path = p, db = d, frame = f, name = n, fragments = [],
      stats = NopStatsClient, BitmapAttrStore = nil, LogOutput = Discard\<rparr>"

definition FragmentPath :: "View \<Rightarrow> u64 \<Rightarrow> string" where
  "FragmentPath v sl = Join [path v, ''fragments'', FormatUint sl]"

text \<open>\<^verbatim>\<open>v.fragments[slice]\<close>: nil for a key that is not in the map.\<close>

definition fragment :: "View \<Rightarrow> u64 \<Rightarrow> ptr" where
  "fragment v sl = (case map_of (fragments v) sl of None \<Rightarrow> nil | Some frag \<Rightarrow> frag)"

definition Fragments :: "View \<Rightarrow> ptr list" where
  "Fragments v = map snd (fragments v)"

definition MaxSlice :: "View \<Rightarrow> u64" where
  "MaxSlice v = foldl (\<lambda>max sl. if sl > max then sl else max) 0 (map fst (fragments v))"

definition newFragment :: "View \<Rightarrow> string \<Rightarrow> u64 \<Rightarrow> world \<Rightarrow> nat \<times> world" where
  "newFragment v p sl w =
     (let (frag, w1) = NewFragment p (db v) (frame v) (name v) sl w;
          w2 = assign frag (\<lambda>f. f\<lparr>frag_LogOutput := LogOutput v\<rparr>) w1;
          w3 = assign frag
                 (\<lambda>f. f\<lparr>frag_stats := WithTags (stats v) [''slice:'' @ FormatUint sl]\<rparr>) w2
      in (frag, w3))"

text \<open>
  The verb \<^verbatim>\<open>%s\<close> applied to the \<^verbatim>\<open>uint64\<close> that \<^verbatim>\<open>frag.Slice()\<close> returns prints as
  \<^verbatim>\<open>%!s(uint64=N)\<close>, with N in decimal.
\<close>

definition open_fragment_error :: "u64 \<Rightarrow> error \<Rightarrow> error" where
  "open_fragment_error sl err =
     ErrorString (''open fragment: slice=%!s(uint64='' @ FormatUint sl @ ''), err='' @ Error err)"

text \<open>The body of the loop of \<^verbatim>\<open>openFragments\<close> over the directory's entries.\<close>

fun openFragments_loop :: "env \<Rightarrow> View \<Rightarrow> world \<Rightarrow> FileInfo list \<Rightarrow> error option \<times> View \<times> world" where
  "openFragments_loop e v w [] = (None, v, w)"
| "openFragments_loop e v w (fi # fis) =
     (if IsDir fi then openFragments_loop e v w fis
      else
        (case ParseUint (Base (Name fi)) of
           Inl err \<Rightarrow> openFragments_loop e v w fis
         | Inr sl \<Rightarrow>
             (let (frag, w1) = newFragment v (FragmentPath v sl) sl w;
                  err = Fragment_Open e w1 (Ptr frag);
                  w2 = log (FragmentOpen (Ptr frag)) w1
              in case err of
                   Some er \<Rightarrow> (Some (open_fragment_error (Slice w2 frag) er), v, w2)
                 | None \<Rightarrow>
                     (let w3 = assign frag (\<lambda>f. f\<lparr>frag_BitmapAttrStore := BitmapAttrStore v\<rparr>) w2;
                          v1 = v\<lparr>fragments := AList.update (Slice w3 frag) (Ptr frag) (fragments v)\<rparr>;
                          w4 = log (StatsCount (stats v1) ''maxSlice'' 1) w3
                      in openFragments_loop e v1 w4 fis))))"

definition openFragments :: "env \<Rightarrow> View \<Rightarrow> world \<Rightarrow> error option \<times> View \<times> world" where
  "openFragments e v w =
     (let dir = Join [path v, ''fragments''];
          err = os_Open e w dir;
          w1 = log (OsOpen dir) w
      in if IsNotExist err then (None, v, w1)
         else case err of
           Some er \<Rightarrow> (Some er, v, w1)
         | None \<Rightarrow>
             (let (fis, err) = File_Readdir e w1 dir;
                  w2 = log (FileReaddir dir) w1
              in case err of
                   Some er \<Rightarrow> (Some er, v, log (FileClose dir) w2)
                 | None \<Rightarrow>
                     (let (r, v1, w3) = openFragments_loop e v w2 fis
                      in (r, v1, log (FileClose dir) w3))))"

text \<open>\<^verbatim>\<open>Close\<close>: the result of each \<^verbatim>\<open>frag.Close()\<close> is assigned to the blank identifier.\<close>

fun Close_loop :: "env \<Rightarrow> world \<Rightarrow> ptr list \<Rightarrow> world" where
  "Close_loop e w [] = w"
| "Close_loop e w (frag # frags) =
     (let discarded = Fragment_Close e w frag
      in Close_loop e (log (FragmentClose frag) w) frags)"

definition Close :: "env \<Rightarrow> View \<Rightarrow> world \<Rightarrow> error option \<times> View \<times> world" where
  "Close e v w = (None, v\<lparr>fragments := []\<rparr>, Close_loop e w (map snd (fragments v)))"

text \<open>The function literal that \<^verbatim>\<open>Open\<close> calls first.\<close>

definition Open_body :: "env \<Rightarrow> View \<Rightarrow> world \<Rightarrow> error option \<times> View \<times> world" where
  "Open_body e v w =
     (case os_MkdirAll e w (path v) of
        Some err \<Rightarrow> (Some err, v, log (MkdirAll (path v)) w)
      | None \<Rightarrow>
          (let w1 = log (MkdirAll (path v)) w;
               dir = Join [path v, ''fragments'']
           in case os_MkdirAll e w1 dir of
                Some err \<Rightarrow> (Some err, v, log (MkdirAll dir) w1)
              | None \<Rightarrow> openFragments e v (log (MkdirAll dir) w1)))"

definition Open :: "env \<Rightarrow> View \<Rightarrow> world \<Rightarrow> error option \<times> View \<times> world" where
  "Open e v w =
     (case Open_body e v w of
        (Some err, v1, w1) \<Rightarrow>
          (let (discarded, v2, w2) = Close e v1 w1 in (Some err, v2, w2))
      | (None, v1, w1) \<Rightarrow> (None, v1, w1))"

text \<open>
  Go returns the pair (fragment, error); both components are kept, so that a nil
  fragment and a nil error are told apart.
\<close>

definition createFragmentIfNotExists :: "env \<Rightarrow> View \<Rightarrow> world \<Rightarrow> u64 \<Rightarrow> (ptr \<times> error option) \<times> View \<times> world" where
  "createFragmentIfNotExists e v w sl =
     (let cached = fragment v sl
      in if cached \<noteq> nil then ((cached, None), v, w)
         else
           (let (frag, w1) = newFragment v (FragmentPath v sl) sl w;
                err = Fragment_Open e w1 (Ptr frag);
                w2 = log (FragmentOpen (Ptr frag)) w1
            in case err of
                 Some er \<Rightarrow> ((nil, Some er), v, w2)
               | None \<Rightarrow>
                   (let w3 = assign frag (\<lambda>f. f\<lparr>frag_BitmapAttrStore := BitmapAttrStore v\<rparr>) w2;
                        v1 = v\<lparr>fragments := AList.update sl (Ptr frag) (fragments v)\<rparr>;
                        w4 = log (StatsCount (stats v1) ''maxSlice'' 1) w3
                    in ((Ptr frag, None), v1, w4))))"

definition CreateFragmentIfNotExists :: "env \<Rightarrow> View \<Rightarrow> world \<Rightarrow> u64 \<Rightarrow> (ptr \<times> error option) \<times> View \<times> world" where
  "CreateFragmentIfNotExists e v w sl = createFragmentIfNotExists e v w sl"

text \<open>
  \<^verbatim>\<open>SetBit\<close> and \<^verbatim>\<open>ClearBit\<close>: the named result \<^verbatim>\<open>changed\<close> still has its zero value
  when the error of \<^verbatim>\<open>CreateFragmentIfNotExists\<close> is returned.
\<close>

definition SetBit :: "env \<Rightarrow> View \<Rightarrow> world \<Rightarrow> u64 \<Rightarrow> u64 \<Rightarrow> (bool \<times> error option) \<times> View \<times> world" where
  "SetBit e v w bitmapID profileID =
     (let sl = profileID div SliceWidth e;
          ((frag, err), v1, w1) = CreateFragmentIfNotExists e v w sl
      in case err of
           Some er \<Rightarrow> ((False, Some er), v1, w1)
         | None \<Rightarrow>
             (Fragment_SetBit e w1 frag bitmapID profileID, v1,
              log (FragmentSetBit frag bitmapID profileID) w1))"

definition ClearBit :: "env \<Rightarrow> View \<Rightarrow> world \<Rightarrow> u64 \<Rightarrow> u64 \<Rightarrow> (bool \<times> error option) \<times> View \<times> world" where
  "ClearBit e v w bitmapID profileID =
     (let sl = profileID div SliceWidth e;
          ((frag, err), v1, w1) = CreateFragmentIfNotExists e v w sl
      in case err of
           Some er \<Rightarrow> ((False, Some er), v1, w1)
         | None \<Rightarrow>
             (Fragment_ClearBit e w1 frag bitmapID profileID, v1,
              log (FragmentClearBit frag bitmapID profileID) w1))"

section \<open>Notions used to state the properties\<close>

text \<open>Calls that change bits of a fragment, and calls of a fragment's open operation.\<close>

definition is_mutation :: "event \<Rightarrow> bool" where
  "is_mutation ev =
     (case ev of FragmentSetBit frag b r \<Rightarrow> True | FragmentClearBit frag b r \<Rightarrow> True
      | _ \<Rightarrow> False)"

definition is_open :: "event \<Rightarrow> bool" where
  "is_open ev = (case ev of FragmentOpen frag \<Rightarrow> True | _ \<Rightarrow> False)"

text \<open>
  The slice a directory entry is recognised as by the loop of \<^verbatim>\<open>openFragments\<close>: none for
  a subdirectory and for a name that \<^verbatim>\<open>ParseUint\<close> refuses.
\<close>

definition recognized :: "FileInfo \<Rightarrow> u64 option" where
  "recognized fi =
     (if IsDir fi then None
      else case ParseUint (Base (Name fi)) of Inl err \<Rightarrow> None | Inr sl \<Rightarrow> Some sl)"

text \<open>
  The invariant of the registry: every entry holds a fragment that is allocated and that
  reports the entry's key as its slice.
\<close>

definition registry_inv :: "View \<Rightarrow> world \<Rightarrow> bool" where
  "registry_inv v w =
     list_all (\<lambda>(sl, frag). case frag of nil \<Rightarrow> False
                 | Ptr a \<Rightarrow> a < length (heap w) \<and> Slice w a = sl) (fragments v)"

text \<open>
  The world and the view after a fragment for \<open>sl\<close> was constructed, opened without error
  and registered; and the fact that a later world still has the fragments of an earlier
  one, with their slices.
\<close>

definition opened_world :: "View \<Rightarrow> u64 \<Rightarrow> world \<Rightarrow> world" where
  "opened_world v sl w =
     log (StatsCount (stats v) ''maxSlice'' 1)
       (assign (length (heap w)) (\<lambda>f. f\<lparr>frag_BitmapAttrStore := BitmapAttrStore v\<rparr>)
          (log (FragmentOpen (Ptr (length (heap w))))
             (snd (newFragment v (FragmentPath v sl) sl w))))"

definition registered_view :: "View \<Rightarrow> u64 \<Rightarrow> world \<Rightarrow> View" where
  "registered_view v sl w =
     v\<lparr>fragments := AList.update sl (Ptr (length (heap w))) (fragments v)\<rparr>"

definition slices_kept :: "world \<Rightarrow> world \<Rightarrow> bool" where
  "slices_kept w w' =
     (map frag_slice (take (length (heap w)) (heap w')) = map frag_slice (heap w))"

text \<open>Decimal digits, and the number a string of digits denotes.\<close>

definition is_digit :: "char \<Rightarrow> bool" where
  "is_digit c = (48 \<le> (of_char c :: nat) \<and> (of_char c :: nat) \<le> 57)"

definition decimal_value :: "string \<Rightarrow> nat" where
  "decimal_value s = foldl (\<lambda>n c. 10 * n + (of_char c - 48)) 0 s"

section \<open>Sample runs\<close>

text \<open>
  Two environments on which the operations are evaluated: one in which every outside call
  succeeds, and one in which the fragment of slice 7 cannot be opened, no fragment can be
  closed without an error and bits cannot be set.
\<close>

definition plain_file :: "string \<Rightarrow> FileInfo" where
  "plain_file n = \<lparr>Name = n, IsDir = False\<rparr>"

definition directory :: "string \<Rightarrow> FileInfo" where
  "directory n = \<lparr>Name = n, IsDir = True\<rparr>"

definition standard_view :: View where
  "standard_view = NewView ''/tmp/v'' ''d'' ''f'' ''standard''"

definition empty_world :: world where
  "empty_world = \<lparr>heap = [], trace = []\<rparr>"

definition quiet_env :: env where
  "quiet_env =
     \<lparr>SliceWidth = 4,
      os_MkdirAll = (\<lambda>w p. None),
      os_Open = (\<lambda>w p. None),
      File_Readdir = (\<lambda>w p. ([plain_file ''3'', plain_file ''7'', plain_file ''x'',
                                plain_file ''12.tmp''], None)),
      Fragment_Open = (\<lambda>w frag. None),
      Fragment_Close = (\<lambda>w frag. None),
      Fragment_SetBit = (\<lambda>w frag b r. (True, None)),
      Fragment_ClearBit = (\<lambda>w frag b r. (True, None))\<rparr>"

definition faulty_env :: env where
  "faulty_env =
     \<lparr>SliceWidth = 4,
      os_MkdirAll = (\<lambda>w p. None),
      os_Open = (\<lambda>w p. None),
      File_Readdir = (\<lambda>w p. ([directory ''9'', plain_file ''3'', plain_file ''x'',
                                plain_file ''7'', plain_file ''12''], None)),
      Fragment_Open = (\<lambda>w frag. case frag of nil \<Rightarrow> None
                         | Ptr a \<Rightarrow> if Slice w a = 7 then Some (ErrOther ''disk full'') else None),
      Fragment_Close = (\<lambda>w frag. Some (ErrOther ''already closed'')),
      Fragment_SetBit = (\<lambda>w frag b r. (False, Some (ErrOther ''read only''))),
      Fragment_ClearBit = (\<lambda>w frag b r. (False, None))\<rparr>"

text \<open>An environment in which two directories cannot be created.\<close>

definition no_directory_env :: env where
  "no_directory_env =
     \<lparr>SliceWidth = 4,
      os_MkdirAll = (\<lambda>w p. if p = ''/tmp/v/fragments'' \<or> p = ''/ro''
                            then Some (ErrOther ''permission denied'') else None),
      os_Open = (\<lambda>w p. None),
      File_Readdir = (\<lambda>w p. ([], None)),
      Fragment_Open = (\<lambda>w frag. None),
      Fragment_Close = (\<lambda>w frag. Some (ErrOther ''already closed'')),
      Fragment_SetBit = (\<lambda>w frag b r. (True, None)),
      Fragment_ClearBit = (\<lambda>w frag b r. (True, None))\<rparr>"

text \<open>The view and the world after the view was opened in the first environment.\<close>

definition discovered_view :: View where
  "discovered_view = fst (snd (Open quiet_env standard_view empty_world))"

definition discovered_world :: world where
  "discovered_world = snd (snd (Open quiet_env standard_view empty_world))"

section \<open>The world under the view's operations\<close>

lemma trace_log: "trace (log ev w) = trace w @ [ev]"
  by (simp add: log_def)

lemma heap_log: "heap (log ev w) = heap w"
  by (simp add: log_def)

lemma newFragment_eq:
  "newFragment v p sl w =
     (length (heap w),
      w\<lparr>heap := heap w @
         [\<lparr>frag_path = p, frag_db = db v, frag_frame = frame v, frag_view = name v,
           frag_slice = sl, frag_LogOutput = LogOutput v,
           frag_stats = WithTags (stats v) [''slice:'' @ FormatUint sl],
           frag_BitmapAttrStore = nil\<rparr>]\<rparr>)"
  by (simp add: newFragment_def NewFragment_def assign_def)

lemma fst_newFragment: "fst (newFragment v p sl w) = length (heap w)"
  by (simp add: newFragment_eq)

lemma trace_newFragment: "trace (snd (newFragment v p sl w)) = trace w"
  by (simp add: newFragment_eq)

lemma Slice_newFragment: "Slice (snd (newFragment v p sl w)) (length (heap w)) = sl"
  by (simp add: newFragment_eq Slice_def)

lemma trace_assign: "trace (assign a f w) = trace w"
  by (simp add: assign_def)

lemma Slice_assign_attr:
  "Slice (assign a (\<lambda>f. f\<lparr>frag_BitmapAttrStore := x\<rparr>) w) b = Slice w b"
  by (cases "a < length (heap w)")
     (simp_all add: Slice_def assign_def nth_list_update list_update_beyond)

lemma Slice_log: "Slice (log ev w) a = Slice w a"
  by (simp add: Slice_def log_def)

lemma heap_opened_world:
  "heap (opened_world v sl w) = heap w @
         [\<lparr>frag_path = FragmentPath v sl, frag_db = db v, frag_frame = frame v,
           frag_view = name v, frag_slice = sl, frag_LogOutput = LogOutput v,
           frag_stats = WithTags (stats v) [''slice:'' @ FormatUint sl],
           frag_BitmapAttrStore = BitmapAttrStore v\<rparr>]"
  by (simp add: opened_world_def newFragment_eq assign_def log_def)

lemma trace_opened_world:
  "trace (opened_world v sl w) =
     trace w @ [FragmentOpen (Ptr (length (heap w))), StatsCount (stats v) ''maxSlice'' 1]"
  by (simp add: opened_world_def trace_log trace_assign trace_newFragment)

section \<open>Get-or-create\<close>

text \<open>The three ways \<^verbatim>\<open>createFragmentIfNotExists\<close> can go.\<close>

lemma createFragmentIfNotExists_cached:
  "fragment v sl \<noteq> nil \<Longrightarrow>
     createFragmentIfNotExists e v w sl = ((fragment v sl, None), v, w)"
  by (simp add: createFragmentIfNotExists_def)

lemma createFragmentIfNotExists_failed:
  assumes "fragment v sl = nil"
    and "Fragment_Open e (snd (newFragment v (FragmentPath v sl) sl w))
           (Ptr (length (heap w))) = Some err"
  shows "createFragmentIfNotExists e v w sl =
           ((nil, Some err), v,
            log (FragmentOpen (Ptr (length (heap w))))
              (snd (newFragment v (FragmentPath v sl) sl w)))"
  using assms
  by (simp add: createFragmentIfNotExists_def split_beta fst_newFragment Let_def)

lemma createFragmentIfNotExists_opened:
  assumes "fragment v sl = nil"
    and "Fragment_Open e (snd (newFragment v (FragmentPath v sl) sl w))
           (Ptr (length (heap w))) = None"
  shows "createFragmentIfNotExists e v w sl =
           ((Ptr (length (heap w)), None), registered_view v sl w, opened_world v sl w)"
  using assms
  by (simp add: createFragmentIfNotExists_def split_beta fst_newFragment Let_def
        registered_view_def opened_world_def)

lemma create_cases:
  obtains (cached) "fragment v sl \<noteq> nil"
      "createFragmentIfNotExists e v w sl = ((fragment v sl, None), v, w)"
  | (failed) err where "fragment v sl = nil"
      "createFragmentIfNotExists e v w sl =
           ((nil, Some err), v,
            log (FragmentOpen (Ptr (length (heap w))))
              (snd (newFragment v (FragmentPath v sl) sl w)))"
  | (opened) "fragment v sl = nil"
      "createFragmentIfNotExists e v w sl =
           ((Ptr (length (heap w)), None), registered_view v sl w, opened_world v sl w)"
proof (cases "fragment v sl = nil")
  case False
  then show ?thesis using cached createFragmentIfNotExists_cached by blast
next
  case True
  show ?thesis
  proof (cases "Fragment_Open e (snd (newFragment v (FragmentPath v sl) sl w))
                  (Ptr (length (heap w)))")
    case None
    then show ?thesis using opened True createFragmentIfNotExists_opened by blast
  next
    case (Some err)
    then show ?thesis using failed True createFragmentIfNotExists_failed by blast
  qed
qed

lemma fragment_registered_view:
  "fragment (registered_view v k w) sl = (if sl = k then Ptr (length (heap w)) else fragment v sl)"
  by (simp add: fragment_def registered_view_def update_conv')

lemma create_trace_mutations:
  "CreateFragmentIfNotExists e v w sl = (r, v', w') \<Longrightarrow>
     filter is_mutation (trace w') = filter is_mutation (trace w)"
  unfolding CreateFragmentIfNotExists_def
  by (cases rule: create_cases [of v sl e w])
     (auto simp: trace_log trace_opened_world trace_newFragment is_mutation_def)

lemma create_registers:
  "CreateFragmentIfNotExists e v w sl = ((frag, None), v1, w1) \<Longrightarrow>
     frag \<noteq> nil \<and> fragment v1 sl = frag"
  unfolding CreateFragmentIfNotExists_def
  by (cases rule: create_cases [of v sl e w]) (auto simp: fragment_registered_view)

text \<open>
  Claim C10. \<^verbatim>\<open>CreateFragmentIfNotExists\<close> returns a fragment that is not nil exactly when
  the error it returns is nil: never a nil fragment with a nil error, never a fragment
  together with an error.
\<close>

theorem CreateFragmentIfNotExists_result:
  "CreateFragmentIfNotExists e v w sl = ((frag, err), v', w') \<Longrightarrow>
     (frag \<noteq> nil) = (err = None)"
  unfolding CreateFragmentIfNotExists_def
  by (cases rule: create_cases [of v sl e w]) auto

theorem CreateFragmentIfNotExists_result_witness:
  "CreateFragmentIfNotExists faulty_env standard_view empty_world 7 =
     ((nil, Some (ErrOther ''disk full'')),
      fst (snd (CreateFragmentIfNotExists faulty_env standard_view empty_world 7)),
      snd (snd (CreateFragmentIfNotExists faulty_env standard_view empty_world 7))) \<and>
   (nil \<noteq> nil) = (Some (ErrOther ''disk full'') = None)"
proof -
  have run: "CreateFragmentIfNotExists faulty_env standard_view empty_world 7 =
     ((nil, Some (ErrOther ''disk full'')),
      fst (snd (CreateFragmentIfNotExists faulty_env standard_view empty_world 7)),
      snd (snd (CreateFragmentIfNotExists faulty_env standard_view empty_world 7)))"
    by code_simp
  from run CreateFragmentIfNotExists_result [OF run] show ?thesis by blast
qed

lemma create_unregistered:
  assumes "fragment v sl = nil"
  shows "filter is_open (trace (snd (snd (CreateFragmentIfNotExists e v w sl)))) =
           filter is_open (trace w) @ [FragmentOpen (Ptr (length (heap w)))] \<and>
         length (heap (snd (snd (CreateFragmentIfNotExists e v w sl)))) = Suc (length (heap w)) \<and>
         Slice (snd (snd (CreateFragmentIfNotExists e v w sl))) (length (heap w)) = sl \<and>
         frag_path (heap (snd (snd (CreateFragmentIfNotExists e v w sl))) ! length (heap w)) =
           FragmentPath v sl \<and>
         snd (fst (CreateFragmentIfNotExists e v w sl)) =
           Fragment_Open e (snd (newFragment v (FragmentPath v sl) sl w)) (Ptr (length (heap w)))"
proof (cases "Fragment_Open e (snd (newFragment v (FragmentPath v sl) sl w))
               (Ptr (length (heap w)))")
  case None
  with assms
  have "CreateFragmentIfNotExists e v w sl =
          ((Ptr (length (heap w)), None), registered_view v sl w, opened_world v sl w)"
    by (simp add: CreateFragmentIfNotExists_def createFragmentIfNotExists_opened)
  with None show ?thesis
    by (simp add: trace_opened_world is_open_def heap_opened_world Slice_def)
next
  case (Some err)
  with assms
  have "CreateFragmentIfNotExists e v w sl =
          ((nil, Some err), v,
           log (FragmentOpen (Ptr (length (heap w))))
             (snd (newFragment v (FragmentPath v sl) sl w)))"
    by (simp add: CreateFragmentIfNotExists_def createFragmentIfNotExists_failed)
  with Some show ?thesis
    by (simp add: trace_log trace_newFragment is_open_def heap_log Slice_def newFragment_eq)
qed

lemma create_outcome:
  "(CreateFragmentIfNotExists e v w sl = ((frag, None), v1, w1) \<longrightarrow>
      frag \<noteq> nil \<and> fragment v1 sl = frag \<and>
      (fragment v sl = nil \<longrightarrow> frag = Ptr (length (heap w))) \<and>
      CreateFragmentIfNotExists e v1 w1 sl = ((frag, None), v1, w1) \<and>
      length (filter is_open (trace w1)) \<le> length (filter is_open (trace w)) + 1) \<and>
   (CreateFragmentIfNotExists e v w sl = ((frag, Some err), v1, w1) \<longrightarrow>
      frag = nil \<and> v1 = v \<and> fragment v sl = nil)"
  unfolding CreateFragmentIfNotExists_def
  by (cases rule: create_cases [of v sl e w])
     (auto simp: trace_opened_world is_open_def fragment_registered_view
        createFragmentIfNotExists_cached)

text \<open>
  Claim C2. \<^verbatim>\<open>CreateFragmentIfNotExists\<close> is idempotent once a slice is registered. A
  slice that is registered is returned as it is: nothing is opened and nothing changes.
  For a slice that is not registered, one fragment is constructed for that slice at its
  \<^verbatim>\<open>FragmentPath\<close> and its open operation is called exactly once; the error returned is
  the one of that call. When the open succeeds, the new fragment is registered for the
  slice and returned, and a second call for the same slice returns the same pointer and
  changes neither the view nor the world, so over both calls one open is made. When the
  open fails, nil is returned with the error and the registry is unchanged.
\<close>

theorem CreateFragmentIfNotExists_idempotent:
  "(fragment v sl \<noteq> nil \<longrightarrow>
      CreateFragmentIfNotExists e v w sl = ((fragment v sl, None), v, w)) \<and>
   (fragment v sl = nil \<longrightarrow>
      filter is_open (trace (snd (snd (CreateFragmentIfNotExists e v w sl)))) =
        filter is_open (trace w) @ [FragmentOpen (Ptr (length (heap w)))] \<and>
      length (heap (snd (snd (CreateFragmentIfNotExists e v w sl)))) = Suc (length (heap w)) \<and>
      Slice (snd (snd (CreateFragmentIfNotExists e v w sl))) (length (heap w)) = sl \<and>
      frag_path (heap (snd (snd (CreateFragmentIfNotExists e v w sl))) ! length (heap w)) =
        FragmentPath v sl \<and>
      snd (fst (CreateFragmentIfNotExists e v w sl)) =
        Fragment_Open e (snd (newFragment v (FragmentPath v sl) sl w)) (Ptr (length (heap w)))) \<and>
   (CreateFragmentIfNotExists e v w sl = ((frag, None), v1, w1) \<longrightarrow>
      frag \<noteq> nil \<and> fragment v1 sl = frag \<and>
      (fragment v sl = nil \<longrightarrow> frag = Ptr (length (heap w))) \<and>
      CreateFragmentIfNotExists e v1 w1 sl = ((frag, None), v1, w1) \<and>
      length (filter is_open (trace w1)) \<le> length (filter is_open (trace w)) + 1) \<and>
   (CreateFragmentIfNotExists e v w sl = ((frag, Some err), v1, w1) \<longrightarrow>
      frag = nil \<and> v1 = v \<and> fragment v sl = nil)"
proof -
  have cached: "fragment v sl \<noteq> nil \<longrightarrow>
      CreateFragmentIfNotExists e v w sl = ((fragment v sl, None), v, w)"
    by (simp add: CreateFragmentIfNotExists_def createFragmentIfNotExists_cached)
  from cached create_unregistered [of v sl e w] create_outcome [of e v w sl frag v1 w1 err]
  show ?thesis by blast
qed


theorem CreateFragmentIfNotExists_idempotent_witness:
  "CreateFragmentIfNotExists quiet_env standard_view empty_world 5 =
     ((Ptr 0, None),
      fst (snd (CreateFragmentIfNotExists quiet_env standard_view empty_world 5)),
      snd (snd (CreateFragmentIfNotExists quiet_env standard_view empty_world 5))) \<and>
   fragment (fst (snd (CreateFragmentIfNotExists quiet_env standard_view empty_world 5))) 5 = Ptr 0 \<and>
   CreateFragmentIfNotExists quiet_env
     (fst (snd (CreateFragmentIfNotExists quiet_env standard_view empty_world 5)))
     (snd (snd (CreateFragmentIfNotExists quiet_env standard_view empty_world 5))) 5 =
     ((Ptr 0, None),
      fst (snd (CreateFragmentIfNotExists quiet_env standard_view empty_world 5)),
      snd (snd (CreateFragmentIfNotExists quiet_env standard_view empty_world 5))) \<and>
   filter is_open
     (trace (snd (snd (CreateFragmentIfNotExists quiet_env standard_view empty_world 5)))) =
     [FragmentOpen (Ptr 0)] \<and>
   fragment discovered_view 7 \<noteq> nil \<and>
   CreateFragmentIfNotExists faulty_env discovered_view discovered_world 7 =
     ((fragment discovered_view 7, None), discovered_view, discovered_world)"
proof -
  let ?c = "CreateFragmentIfNotExists quiet_env standard_view empty_world 5"
  have first: "?c = ((Ptr 0, None), fst (snd ?c), snd (snd ?c))"
    by code_simp
  have unregistered: "fragment standard_view 5 = nil"
    by code_simp
  have before: "filter is_open (trace empty_world) = [] \<and> length (heap empty_world) = 0"
    by (simp add: empty_world_def)
  have registered: "fragment discovered_view 7 \<noteq> nil"
    by code_simp
  note quiet = CreateFragmentIfNotExists_idempotent
    [where v = standard_view and sl = 5 and e = quiet_env and w = empty_world
       and frag = "Ptr 0" and ?v1.0 = "fst (snd ?c)" and ?w1.0 = "snd (snd ?c)"
       and err = "ErrOther ''disk full''"]
  note faulty = CreateFragmentIfNotExists_idempotent
    [where v = discovered_view and sl = 7 and e = faulty_env and w = discovered_world
       and frag = "Ptr 0" and ?v1.0 = discovered_view and ?w1.0 = discovered_world
       and err = "ErrOther ''disk full''"]
  from quiet first have again: "fragment (fst (snd ?c)) 5 = Ptr 0 \<and>
      CreateFragmentIfNotExists quiet_env (fst (snd ?c)) (snd (snd ?c)) 5 =
        ((Ptr 0, None), fst (snd ?c), snd (snd ?c))"
    by blast
  from quiet unregistered
  have "filter is_open (trace (snd (snd ?c))) =
          filter is_open (trace empty_world) @ [FragmentOpen (Ptr (length (heap empty_world)))]"
    by blast
  with before have opened: "filter is_open (trace (snd (snd ?c))) = [FragmentOpen (Ptr 0)]"
    by simp
  from faulty registered
  have kept: "CreateFragmentIfNotExists faulty_env discovered_view discovered_world 7 =
     ((fragment discovered_view 7, None), discovered_view, discovered_world)"
    by blast
  from first again opened registered kept show ?thesis by blast
qed

text \<open>
  Without the condition that the open succeeds, neither part of the claim holds for
  every slice: where the fragment of slice 7 cannot be opened, each of two calls for
  slice 7 constructs a fragment and opens it, so the open operation is called twice for
  the slice, and no fragment is returned.
\<close>

theorem CreateFragmentIfNotExists_reopens_counterexample:
  "CreateFragmentIfNotExists faulty_env standard_view empty_world 7 =
     ((nil, Some (ErrOther ''disk full'')), standard_view,
      snd (snd (CreateFragmentIfNotExists faulty_env standard_view empty_world 7))) \<and>
   CreateFragmentIfNotExists faulty_env standard_view
     (snd (snd (CreateFragmentIfNotExists faulty_env standard_view empty_world 7))) 7 =
     ((nil, Some (ErrOther ''disk full'')), standard_view,
      snd (snd (CreateFragmentIfNotExists faulty_env standard_view
        (snd (snd (CreateFragmentIfNotExists faulty_env standard_view empty_world 7))) 7))) \<and>
   filter is_open
     (trace (snd (snd (CreateFragmentIfNotExists faulty_env standard_view
        (snd (snd (CreateFragmentIfNotExists faulty_env standard_view empty_world 7))) 7)))) =
     [FragmentOpen (Ptr 0), FragmentOpen (Ptr 1)]"
  by code_simp

section \<open>Setting and clearing bits\<close>

lemma div4_low: "(r::u64) \<le> 3 \<Longrightarrow> r div 4 = 0"
  by (simp add: word_le_nat_alt word_eq_iff_unsigned [where ?'a = nat] unat_div)

lemma div4_high: "(4::u64) \<le> r \<Longrightarrow> r \<le> 7 \<Longrightarrow> r div 4 = 1"
  by (simp add: word_le_nat_alt word_eq_iff_unsigned [where ?'a = nat] unat_div)

text \<open>
  Claim C1. For every bitmap id and row id, \<^verbatim>\<open>SetBit\<close> and \<^verbatim>\<open>ClearBit\<close> ask
  \<^verbatim>\<open>CreateFragmentIfNotExists\<close> for the slice \<open>rowID div SliceWidth\<close>; when that returns a
  fragment, it is the fragment registered for that slice, the mutation is called on it
  with the same bitmap id and row id, and the pair (changed, error) of the fragment is
  returned as it is. With \<open>SliceWidth = 4\<close> the rows 0 to 3 go to the fragment of slice 0
  and the rows 4 to 7 to the fragment of slice 1.
\<close>

theorem SetBit_ClearBit_route:
  assumes "CreateFragmentIfNotExists e v w (profileID div SliceWidth e) = ((frag, None), v1, w1)"
  shows "SetBit e v w bitmapID profileID =
           (Fragment_SetBit e w1 frag bitmapID profileID, v1,
            log (FragmentSetBit frag bitmapID profileID) w1) \<and>
         ClearBit e v w bitmapID profileID =
           (Fragment_ClearBit e w1 frag bitmapID profileID, v1,
            log (FragmentClearBit frag bitmapID profileID) w1) \<and>
         frag \<noteq> nil \<and> fragment v1 (profileID div SliceWidth e) = frag \<and>
         (SliceWidth e = 4 \<longrightarrow>
            (profileID \<le> 3 \<longrightarrow> fragment v1 0 = frag) \<and>
            (4 \<le> profileID \<and> profileID \<le> 7 \<longrightarrow> fragment v1 1 = frag))"
proof -
  have routed: "frag \<noteq> nil \<and> fragment v1 (profileID div SliceWidth e) = frag"
    using assms by (rule create_registers)
  have setbit: "SetBit e v w bitmapID profileID =
           (Fragment_SetBit e w1 frag bitmapID profileID, v1,
            log (FragmentSetBit frag bitmapID profileID) w1)"
    using assms by (simp add: SetBit_def)
  have clearbit: "ClearBit e v w bitmapID profileID =
           (Fragment_ClearBit e w1 frag bitmapID profileID, v1,
            log (FragmentClearBit frag bitmapID profileID) w1)"
    using assms by (simp add: ClearBit_def)
  have four: "SliceWidth e = 4 \<longrightarrow>
            (profileID \<le> 3 \<longrightarrow> fragment v1 0 = frag) \<and>
            (4 \<le> profileID \<and> profileID \<le> 7 \<longrightarrow> fragment v1 1 = frag)"
    using routed div4_low [of profileID] div4_high [of profileID] by auto
  from routed setbit clearbit four show ?thesis by blast
qed

theorem SetBit_ClearBit_route_witness:
  "SetBit quiet_env standard_view empty_world 1 6 =
     ((True, None),
      fst (snd (CreateFragmentIfNotExists quiet_env standard_view empty_world 1)),
      log (FragmentSetBit (Ptr 0) 1 6)
        (snd (snd (CreateFragmentIfNotExists quiet_env standard_view empty_world 1)))) \<and>
   fragment (fst (snd (CreateFragmentIfNotExists quiet_env standard_view empty_world 1))) 1 = Ptr 0"
proof -
  let ?c = "CreateFragmentIfNotExists quiet_env standard_view empty_world"
  have width: "SliceWidth quiet_env = 4" by (simp add: quiet_env_def)
  have target: "(6::u64) div SliceWidth quiet_env = 1" by code_simp
  have created: "?c (6 div SliceWidth quiet_env) = ((Ptr 0, None), fst (snd (?c 1)), snd (snd (?c 1)))"
    by code_simp
  have outcome: "Fragment_SetBit quiet_env (snd (snd (?c 1))) (Ptr 0) 1 6 = (True, None)"
    by (simp add: quiet_env_def)
  from SetBit_ClearBit_route [OF created, of 1] width target outcome show ?thesis by simp
qed

text \<open>
  Claim C9. When \<^verbatim>\<open>CreateFragmentIfNotExists\<close> returns an error inside \<^verbatim>\<open>SetBit\<close> or
  \<^verbatim>\<open>ClearBit\<close>, the operation returns changed = false together with that error, and no
  fragment is asked to set or clear a bit.
\<close>

theorem SetBit_ClearBit_create_failure:
  assumes "CreateFragmentIfNotExists e v w (profileID div SliceWidth e) = ((frag, Some err), v1, w1)"
  shows "SetBit e v w bitmapID profileID = ((False, Some err), v1, w1) \<and>
         ClearBit e v w bitmapID profileID = ((False, Some err), v1, w1) \<and>
         filter is_mutation (trace w1) = filter is_mutation (trace w)"
  using assms create_trace_mutations [OF assms]
  by (simp add: SetBit_def ClearBit_def)

theorem SetBit_ClearBit_create_failure_witness:
  "SetBit faulty_env standard_view empty_world 1 30 =
     ((False, Some (ErrOther ''disk full'')), standard_view,
      snd (snd (CreateFragmentIfNotExists faulty_env standard_view empty_world 7))) \<and>
   ClearBit faulty_env standard_view empty_world 1 30 =
     ((False, Some (ErrOther ''disk full'')), standard_view,
      snd (snd (CreateFragmentIfNotExists faulty_env standard_view empty_world 7))) \<and>
   filter is_mutation
     (trace (snd (snd (CreateFragmentIfNotExists faulty_env standard_view empty_world 7)))) = []"
proof -
  let ?c = "CreateFragmentIfNotExists faulty_env standard_view empty_world"
  have created: "?c (30 div SliceWidth faulty_env) =
      ((nil, Some (ErrOther ''disk full'')), standard_view, snd (snd (?c 7)))"
    by code_simp
  have before: "filter is_mutation (trace empty_world) = []"
    by (simp add: empty_world_def)
  from SetBit_ClearBit_create_failure [OF created, of 1] before show ?thesis by simp
qed

section \<open>Discovery\<close>

text \<open>The three ways one round of the loop of \<^verbatim>\<open>openFragments\<close> can go.\<close>

lemma loop_skip:
  "recognized fi = None \<Longrightarrow>
     openFragments_loop e v w (fi # fis) = openFragments_loop e v w fis"
  by (simp add: recognized_def split: if_splits sum.splits)

lemma loop_failed:
  assumes "recognized fi = Some sl"
    and "Fragment_Open e (snd (newFragment v (FragmentPath v sl) sl w))
           (Ptr (length (heap w))) = Some err"
  shows "openFragments_loop e v w (fi # fis) =
           (Some (open_fragment_error sl err), v,
            log (FragmentOpen (Ptr (length (heap w))))
              (snd (newFragment v (FragmentPath v sl) sl w)))"
  using assms
  by (simp add: recognized_def split_beta fst_newFragment Slice_newFragment Slice_log Let_def
        split: if_splits sum.splits)

lemma loop_opened:
  assumes "recognized fi = Some sl"
    and "Fragment_Open e (snd (newFragment v (FragmentPath v sl) sl w))
           (Ptr (length (heap w))) = None"
  shows "openFragments_loop e v w (fi # fis) =
           openFragments_loop e (registered_view v sl w) (opened_world v sl w) fis"
  using assms
  by (simp add: recognized_def split_beta fst_newFragment Slice_newFragment Let_def
        Slice_assign_attr Slice_log opened_world_def registered_view_def
        split: if_splits sum.splits)

declare openFragments_loop.simps(2) [simp del]

lemma loop_cases:
  obtains (skip) "recognized fi = None"
      "openFragments_loop e v w (fi # fis) = openFragments_loop e v w fis"
  | (failed) sl err where "recognized fi = Some sl"
      "Fragment_Open e (snd (newFragment v (FragmentPath v sl) sl w))
         (Ptr (length (heap w))) = Some err"
      "openFragments_loop e v w (fi # fis) =
           (Some (open_fragment_error sl err), v,
            log (FragmentOpen (Ptr (length (heap w))))
              (snd (newFragment v (FragmentPath v sl) sl w)))"
  | (opened) sl where "recognized fi = Some sl"
      "Fragment_Open e (snd (newFragment v (FragmentPath v sl) sl w))
         (Ptr (length (heap w))) = None"
      "openFragments_loop e v w (fi # fis) =
           openFragments_loop e (registered_view v sl w) (opened_world v sl w) fis"
proof (cases "recognized fi")
  case None
  then show ?thesis using skip loop_skip by blast
next
  case (Some sl)
  show ?thesis
  proof (cases "Fragment_Open e (snd (newFragment v (FragmentPath v sl) sl w))
                  (Ptr (length (heap w)))")
    case None
    with Some show ?thesis using opened loop_opened by blast
  next
    case (Some err)
    with \<open>recognized fi = Some sl\<close> show ?thesis using failed loop_failed by blast
  qed
qed

lemma loop_append:
  "openFragments_loop e v w (xs @ ys) =
     (case openFragments_loop e v w xs of
        (None, v1, w1) \<Rightarrow> openFragments_loop e v1 w1 ys
      | (Some err, v1, w1) \<Rightarrow> (Some err, v1, w1))"
proof (induction xs arbitrary: v w)
  case Nil
  show ?case by simp
next
  case (Cons fi xs)
  show ?case
    by (cases rule: loop_cases [of fi e v w "xs @ ys"];
        cases rule: loop_cases [of fi e v w xs])
       (simp_all add: Cons.IH)
qed

lemma loop_filter:
  "openFragments_loop e v w fis =
     openFragments_loop e v w (filter (\<lambda>fi. recognized fi \<noteq> None) fis)"
proof (induction fis arbitrary: v w)
  case Nil
  show ?case by simp
next
  case (Cons fi fis)
  show ?case
    by (cases rule: loop_cases [of fi e v w fis];
        cases rule: loop_cases [of fi e v w "filter (\<lambda>fi. recognized fi \<noteq> None) fis"])
       (simp_all add: Cons.IH)
qed

lemma loop_trace:
  "openFragments_loop e v w fis = (r, v', w') \<Longrightarrow> \<exists>t. trace w' = trace w @ t"
proof (induction fis arbitrary: v w)
  case Nil
  then show ?case by simp
next
  case (Cons fi fis)
  show ?case
  proof (cases rule: loop_cases [of fi e v w fis])
    case skip
    with Cons show ?thesis by simp
  next
    case (failed sl err)
    with Cons.prems show ?thesis by (auto simp: trace_log trace_newFragment)
  next
    case (opened sl)
    with Cons.prems
    have "openFragments_loop e (registered_view v sl w) (opened_world v sl w) fis = (r, v', w')"
      by simp
    from Cons.IH [OF this] show ?thesis by (auto simp: trace_opened_world)
  qed
qed

lemma openFragments_trace:
  assumes "openFragments e v w = (r, v', w')"
  shows "\<exists>t. trace w' = trace w @ t"
proof -
  let ?dir = "Join [path v, ''fragments'']"
  let ?w2 = "log (FileReaddir ?dir) (log (OsOpen ?dir) w)"
  obtain r0 v0 w0
    where run: "openFragments_loop e v ?w2 (fst (File_Readdir e (log (OsOpen ?dir) w) ?dir)) = (r0, v0, w0)"
    by (cases "openFragments_loop e v ?w2 (fst (File_Readdir e (log (OsOpen ?dir) w) ?dir))") auto
  from loop_trace [OF run] obtain t where "trace w0 = trace w @ OsOpen ?dir # FileReaddir ?dir # t"
    by (auto simp: trace_log)
  with assms run show ?thesis
    by (auto simp: openFragments_def Let_def split_beta trace_log split: if_splits option.splits)
qed

lemma openFragments_listing:
  assumes "os_Open e w (Join [path v, ''fragments'']) = None"
    and "File_Readdir e (log (OsOpen (Join [path v, ''fragments''])) w)
           (Join [path v, ''fragments'']) = (fis, None)"
    and "openFragments_loop e v
           (log (FileReaddir (Join [path v, ''fragments'']))
              (log (OsOpen (Join [path v, ''fragments''])) w)) fis = (r, v1, w1)"
  shows "openFragments e v w = (r, v1, log (FileClose (Join [path v, ''fragments''])) w1)"
  using assms by (simp add: openFragments_def Let_def)

text \<open>
  Claim C6. When the fragment of a recognised entry cannot be opened, \<^verbatim>\<open>openFragments\<close>
  stops there: the entries after it are neither read nor registered (the result does not
  depend on them, the registry is the one built from the entries before, and the failed
  open is the last call to a fragment), and the error returned carries the slice and the
  text of the fragment's error. The verb \<^verbatim>\<open>%s\<close> prints the slice as \<^verbatim>\<open>%!s(uint64=N)\<close>.
\<close>

theorem openFragments_abort:
  assumes "os_Open e w (Join [path v, ''fragments'']) = None"
    and "File_Readdir e (log (OsOpen (Join [path v, ''fragments''])) w)
           (Join [path v, ''fragments'']) = (before @ fi # rest, None)"
    and "openFragments_loop e v
           (log (FileReaddir (Join [path v, ''fragments'']))
              (log (OsOpen (Join [path v, ''fragments''])) w))
           before = (None, v1, w1)"
    and "recognized fi = Some sl"
    and "Fragment_Open e (snd (newFragment v1 (FragmentPath v1 sl) sl w1))
           (Ptr (length (heap w1))) = Some err"
  shows "openFragments e v w =
           (Some (ErrorString (''open fragment: slice=%!s(uint64='' @ FormatUint sl @
                               ''), err='' @ Error err)),
            v1,
            log (FileClose (Join [path v, ''fragments'']))
              (log (FragmentOpen (Ptr (length (heap w1))))
                 (snd (newFragment v1 (FragmentPath v1 sl) sl w1))))"
proof -
  have "openFragments_loop e v
           (log (FileReaddir (Join [path v, ''fragments'']))
              (log (OsOpen (Join [path v, ''fragments''])) w))
           (before @ fi # rest) =
        (Some (open_fragment_error sl err), v1,
         log (FragmentOpen (Ptr (length (heap w1))))
           (snd (newFragment v1 (FragmentPath v1 sl) sl w1)))"
    using assms(3) loop_failed [OF assms(4) assms(5)] by (simp add: loop_append)
  from openFragments_listing [OF assms(1) assms(2) this] show ?thesis
    by (simp add: open_fragment_error_def)
qed

theorem openFragments_abort_witness:
  "openFragments faulty_env standard_view empty_world =
     (Some (ErrorString ''open fragment: slice=%!s(uint64=7), err=disk full''),
      standard_view\<lparr>fragments := [(3, Ptr 0)]\<rparr>,
      snd (snd (openFragments faulty_env standard_view empty_world))) \<and>
   filter is_open (trace (snd (snd (openFragments faulty_env standard_view empty_world)))) =
     [FragmentOpen (Ptr 0), FragmentOpen (Ptr 1)]"
proof -
  let ?dir = "Join [path standard_view, ''fragments'']"
  let ?w2 = "log (FileReaddir ?dir) (log (OsOpen ?dir) empty_world)"
  let ?before = "[directory ''9'', plain_file ''3'', plain_file ''x'']"
  let ?v1 = "standard_view\<lparr>fragments := [(3, Ptr 0)]\<rparr>"
  let ?w1 = "snd (snd (openFragments_loop faulty_env standard_view ?w2 ?before))"
  have h1: "os_Open faulty_env empty_world ?dir = None"
    by (simp add: faulty_env_def)
  have h2: "File_Readdir faulty_env (log (OsOpen ?dir) empty_world) ?dir =
              (?before @ plain_file ''7'' # [plain_file ''12''], None)"
    by (simp add: faulty_env_def)
  have h3: "openFragments_loop faulty_env standard_view ?w2 ?before = (None, ?v1, ?w1)"
    by code_simp
  have h4: "recognized (plain_file ''7'') = Some 7"
    by code_simp
  have h5: "Fragment_Open faulty_env (snd (newFragment ?v1 (FragmentPath ?v1 7) 7 ?w1))
              (Ptr (length (heap ?w1))) = Some (ErrOther ''disk full'')"
    by code_simp
  have message: "''open fragment: slice=%!s(uint64='' @ FormatUint 7 @ ''), err='' @
                Error (ErrOther ''disk full'') =
              ''open fragment: slice=%!s(uint64=7), err=disk full''"
    by code_simp
  have opens: "filter is_open (trace (snd (snd (openFragments faulty_env standard_view empty_world)))) =
     [FragmentOpen (Ptr 0), FragmentOpen (Ptr 1)]"
    by code_simp
  from openFragments_abort [OF h1 h2 h3 h4 h5] message opens show ?thesis by simp
qed

section \<open>Closing and opening\<close>

lemma trace_Close_loop: "trace (Close_loop e w frags) = trace w @ map FragmentClose frags"
  by (induction frags arbitrary: w) (simp_all add: trace_log)

lemma heap_Close_loop: "heap (Close_loop e w frags) = heap w"
  by (induction frags arbitrary: w) (simp_all add: heap_log)

text \<open>
  Claim C5. \<^verbatim>\<open>Close\<close> calls the close operation of every registered fragment, once each
  and whatever the earlier ones returned, returns the nil error, and leaves the registry
  empty, whatever the environment (so also where closing a fragment fails). Afterwards
  \<^verbatim>\<open>Fragments\<close> is empty, and a second \<^verbatim>\<open>Close\<close> returns the nil error and changes
  neither the view nor the world.
\<close>

theorem Close_best_effort:
  "Close e v w = (None, v\<lparr>fragments := []\<rparr>, Close_loop e w (Fragments v)) \<and>
   trace (Close_loop e w (Fragments v)) = trace w @ map FragmentClose (Fragments v) \<and>
   heap (Close_loop e w (Fragments v)) = heap w \<and>
   Fragments (v\<lparr>fragments := []\<rparr>) = [] \<and>
   Close e (v\<lparr>fragments := []\<rparr>) w' = (None, v\<lparr>fragments := []\<rparr>, w')"
  by (simp add: Close_def Fragments_def trace_Close_loop heap_Close_loop)

theorem Close_best_effort_witness:
  "Fragments discovered_view = [Ptr 0, Ptr 1] \<and>
   Fragment_Close faulty_env discovered_world (Ptr 0) = Some (ErrOther ''already closed'') \<and>
   fst (Close faulty_env discovered_view discovered_world) = None \<and>
   Fragments (fst (snd (Close faulty_env discovered_view discovered_world))) = [] \<and>
   trace (snd (snd (Close faulty_env discovered_view discovered_world))) =
     trace discovered_world @ [FragmentClose (Ptr 0), FragmentClose (Ptr 1)] \<and>
   Close faulty_env (discovered_view\<lparr>fragments := []\<rparr>) empty_world =
     (None, discovered_view\<lparr>fragments := []\<rparr>, empty_world)"
proof -
  have registered: "Fragments discovered_view = [Ptr 0, Ptr 1]"
    by code_simp
  have fails: "Fragment_Close faulty_env discovered_world (Ptr 0) = Some (ErrOther ''already closed'')"
    by (simp add: faulty_env_def)
  from Close_best_effort [of faulty_env discovered_view discovered_world empty_world]
    registered fails
  show ?thesis by simp
qed

lemma Open_body_trace:
  assumes "Open_body e v w = (r, v1, w1)"
  shows "\<exists>t. trace w1 = trace w @ MkdirAll (path v) # t"
proof -
  let ?w2 = "log (MkdirAll (Join [path v, ''fragments''])) (log (MkdirAll (path v)) w)"
  obtain r0 v0 w0 where run: "openFragments e v ?w2 = (r0, v0, w0)"
    by (cases "openFragments e v ?w2") auto
  from openFragments_trace [OF run]
  obtain t where "trace w0 = trace w @ MkdirAll (path v) # MkdirAll (Join [path v, ''fragments'']) # t"
    by (auto simp: trace_log)
  with assms run show ?thesis
    by (auto simp: Open_body_def Let_def trace_log split: option.splits)
qed

lemma Open_body_failure:
  assumes "Open_body e v w = (Some err, v1, w1)"
  shows "os_MkdirAll e w (path v) = Some err \<or>
         os_MkdirAll e (log (MkdirAll (path v)) w) (Join [path v, ''fragments'']) = Some err \<or>
         fst (openFragments e v
                (log (MkdirAll (Join [path v, ''fragments''])) (log (MkdirAll (path v)) w)))
           = Some err"
  using assms by (auto simp: Open_body_def Let_def split: option.splits)

lemma Open_of_body_failure:
  "Open_body e v w = (Some err, v1, w1) \<Longrightarrow>
     Open e v w = (Some err, v1\<lparr>fragments := []\<rparr>, Close_loop e w1 (Fragments v1))"
  by (simp add: Open_def Close_def Fragments_def)

lemma openFragments_os_Open_failure:
  assumes "os_Open e w (Join [path v, ''fragments'']) = Some err" and "\<not> IsNotExist (Some err)"
  shows "openFragments e v w = (Some err, v, log (OsOpen (Join [path v, ''fragments''])) w)"
  using assms by (simp add: openFragments_def Let_def)

lemma openFragments_Readdir_failure:
  assumes "os_Open e w (Join [path v, ''fragments'']) = None"
    and "snd (File_Readdir e (log (OsOpen (Join [path v, ''fragments''])) w)
           (Join [path v, ''fragments''])) = Some err"
  shows "openFragments e v w =
           (Some err, v,
            log (FileClose (Join [path v, ''fragments'']))
              (log (FileReaddir (Join [path v, ''fragments'']))
                 (log (OsOpen (Join [path v, ''fragments''])) w)))"
  using assms by (simp add: openFragments_def Let_def split_beta)

lemma Open_error_cause:
  assumes "Open e v w = (Some err, v', w')"
  shows "(os_MkdirAll e w (path v) = Some err \<or>
          os_MkdirAll e (log (MkdirAll (path v)) w) (Join [path v, ''fragments'']) = Some err \<or>
          fst (openFragments e v
                 (log (MkdirAll (Join [path v, ''fragments''])) (log (MkdirAll (path v)) w)))
            = Some err) \<and>
         fragments v' = [] \<and>
         (\<exists>v1 w1 t. Open_body e v w = (Some err, v1, w1) \<and>
            v' = v1\<lparr>fragments := []\<rparr> \<and>
            trace w1 = trace w @ MkdirAll (path v) # t \<and>
            trace w' = trace w1 @ map FragmentClose (Fragments v1) \<and>
            heap w' = heap w1)"
proof (cases "Open_body e v w")
  case (fields r v1 w1)
  show ?thesis
  proof (cases r)
    case None
    with fields assms show ?thesis by (simp add: Open_def)
  next
    case (Some er)
    with fields assms have body: "Open_body e v w = (Some err, v1, w1)"
      by (simp add: Open_def split_beta)
    with assms have closed: "v' = v1\<lparr>fragments := []\<rparr> \<and>
        trace w' = trace w1 @ map FragmentClose (Fragments v1) \<and> heap w' = heap w1"
      by (auto simp: Open_def Close_def Fragments_def trace_Close_loop heap_Close_loop)
    from Open_body_trace [OF body] obtain t where "trace w1 = trace w @ MkdirAll (path v) # t"
      by blast
    with body closed Open_body_failure [OF body] show ?thesis by auto
  qed
qed

text \<open>
  Claim C4. \<^verbatim>\<open>Open\<close> fails exactly when one of its steps fails, and then returns that
  step's error as it is. When creating the root directory fails, when creating the
  fragments directory fails, or when \<^verbatim>\<open>openFragments\<close> returns an error (because the
  directory cannot be opened or listed, or a fragment cannot be opened), \<^verbatim>\<open>Open\<close>
  returns that error. \<^verbatim>\<open>Close\<close> has then run: every fragment registered by then has
  been asked to close, whatever those calls returned, and the registry is empty.
  Conversely an error returned by \<^verbatim>\<open>Open\<close> is the error of one of these steps. Nothing
  is undone: the calls that created the directories are in the history, and after the
  failure only fragments are closed.
\<close>

theorem Open_failure:
  "(os_MkdirAll e w (path v) = Some err \<longrightarrow>
      Open e v w =
        (Some err, v\<lparr>fragments := []\<rparr>,
         Close_loop e (log (MkdirAll (path v)) w) (Fragments v))) \<and>
   (os_MkdirAll e w (path v) = None \<and>
    os_MkdirAll e (log (MkdirAll (path v)) w) (Join [path v, ''fragments'']) = Some err \<longrightarrow>
      Open e v w =
        (Some err, v\<lparr>fragments := []\<rparr>,
         Close_loop e
           (log (MkdirAll (Join [path v, ''fragments''])) (log (MkdirAll (path v)) w))
           (Fragments v))) \<and>
   (os_MkdirAll e w (path v) = None \<and>
    os_MkdirAll e (log (MkdirAll (path v)) w) (Join [path v, ''fragments'']) = None \<and>
    openFragments e v
      (log (MkdirAll (Join [path v, ''fragments''])) (log (MkdirAll (path v)) w)) =
      (Some err, v1, w1) \<longrightarrow>
      Open e v w = (Some err, v1\<lparr>fragments := []\<rparr>, Close_loop e w1 (Fragments v1))) \<and>
   (os_Open e w (Join [path v, ''fragments'']) = Some err \<and> \<not> IsNotExist (Some err) \<longrightarrow>
      openFragments e v w = (Some err, v, log (OsOpen (Join [path v, ''fragments''])) w)) \<and>
   (os_Open e w (Join [path v, ''fragments'']) = None \<and>
    snd (File_Readdir e (log (OsOpen (Join [path v, ''fragments''])) w)
           (Join [path v, ''fragments''])) = Some err \<longrightarrow>
      openFragments e v w =
        (Some err, v,
         log (FileClose (Join [path v, ''fragments'']))
           (log (FileReaddir (Join [path v, ''fragments'']))
              (log (OsOpen (Join [path v, ''fragments''])) w)))) \<and>
   trace (Close_loop e w frags) = trace w @ map FragmentClose frags \<and>
   heap (Close_loop e w frags) = heap w \<and>
   (Open e v w = (Some err, v', w') \<longrightarrow>
      (os_MkdirAll e w (path v) = Some err \<or>
       os_MkdirAll e (log (MkdirAll (path v)) w) (Join [path v, ''fragments'']) = Some err \<or>
       fst (openFragments e v
              (log (MkdirAll (Join [path v, ''fragments''])) (log (MkdirAll (path v)) w)))
         = Some err) \<and>
      fragments v' = [] \<and>
      (\<exists>v1 w1 t. Open_body e v w = (Some err, v1, w1) \<and>
         v' = v1\<lparr>fragments := []\<rparr> \<and>
         trace w1 = trace w @ MkdirAll (path v) # t \<and>
         trace w' = trace w1 @ map FragmentClose (Fragments v1) \<and>
         heap w' = heap w1))"
proof -
  have first: "os_MkdirAll e w (path v) = Some err \<longrightarrow>
      Open e v w =
        (Some err, v\<lparr>fragments := []\<rparr>,
         Close_loop e (log (MkdirAll (path v)) w) (Fragments v))"
    by (auto simp: Open_body_def intro: Open_of_body_failure)
  have second: "os_MkdirAll e w (path v) = None \<and>
    os_MkdirAll e (log (MkdirAll (path v)) w) (Join [path v, ''fragments'']) = Some err \<longrightarrow>
      Open e v w =
        (Some err, v\<lparr>fragments := []\<rparr>,
         Close_loop e
           (log (MkdirAll (Join [path v, ''fragments''])) (log (MkdirAll (path v)) w))
           (Fragments v))"
    by (auto simp: Open_body_def Let_def intro: Open_of_body_failure)
  have third: "os_MkdirAll e w (path v) = None \<and>
    os_MkdirAll e (log (MkdirAll (path v)) w) (Join [path v, ''fragments'']) = None \<and>
    openFragments e v
      (log (MkdirAll (Join [path v, ''fragments''])) (log (MkdirAll (path v)) w)) =
      (Some err, v1, w1) \<longrightarrow>
      Open e v w = (Some err, v1\<lparr>fragments := []\<rparr>, Close_loop e w1 (Fragments v1))"
    by (auto simp: Open_body_def Let_def intro: Open_of_body_failure)
  have fourth: "os_Open e w (Join [path v, ''fragments'']) = Some err \<and>
      \<not> IsNotExist (Some err) \<longrightarrow>
      openFragments e v w = (Some err, v, log (OsOpen (Join [path v, ''fragments''])) w)"
    using openFragments_os_Open_failure by blast
  have fifth: "os_Open e w (Join [path v, ''fragments'']) = None \<and>
    snd (File_Readdir e (log (OsOpen (Join [path v, ''fragments''])) w)
           (Join [path v, ''fragments''])) = Some err \<longrightarrow>
      openFragments e v w =
        (Some err, v,
         log (FileClose (Join [path v, ''fragments'']))
           (log (FileReaddir (Join [path v, ''fragments'']))
              (log (OsOpen (Join [path v, ''fragments''])) w)))"
    using openFragments_Readdir_failure by blast
  have closes: "trace (Close_loop e w frags) = trace w @ map FragmentClose frags \<and>
                heap (Close_loop e w frags) = heap w"
    by (simp add: trace_Close_loop heap_Close_loop)
  have cause: "Open e v w = (Some err, v', w') \<longrightarrow>
      (os_MkdirAll e w (path v) = Some err \<or>
       os_MkdirAll e (log (MkdirAll (path v)) w) (Join [path v, ''fragments'']) = Some err \<or>
       fst (openFragments e v
              (log (MkdirAll (Join [path v, ''fragments''])) (log (MkdirAll (path v)) w)))
         = Some err) \<and>
      fragments v' = [] \<and>
      (\<exists>v1 w1 t. Open_body e v w = (Some err, v1, w1) \<and>
         v' = v1\<lparr>fragments := []\<rparr> \<and>
         trace w1 = trace w @ MkdirAll (path v) # t \<and>
         trace w' = trace w1 @ map FragmentClose (Fragments v1) \<and>
         heap w' = heap w1)"
    by (rule impI) (rule Open_error_cause)
  from first second third fourth fifth closes cause show ?thesis by blast
qed

theorem Open_failure_witness:
  "os_MkdirAll no_directory_env (log (MkdirAll (path discovered_view)) discovered_world)
     (Join [path discovered_view, ''fragments'']) = Some (ErrOther ''permission denied'') \<and>
   fragments discovered_view = [(3, Ptr 0), (7, Ptr 1)] \<and>
   fst (Open no_directory_env discovered_view discovered_world) =
     Some (ErrOther ''permission denied'') \<and>
   fragments (fst (snd (Open no_directory_env discovered_view discovered_world))) = [] \<and>
   trace (snd (snd (Open no_directory_env discovered_view discovered_world))) =
     trace discovered_world @
       [MkdirAll ''/tmp/v'', MkdirAll ''/tmp/v/fragments'',
        FragmentClose (Ptr 0), FragmentClose (Ptr 1)] \<and>
   Open no_directory_env (NewView ''/ro'' ''d'' ''f'' ''standard'') empty_world =
     (Some (ErrOther ''permission denied''), NewView ''/ro'' ''d'' ''f'' ''standard'',
      log (MkdirAll ''/ro'') empty_world) \<and>
   Open faulty_env standard_view empty_world =
     (Some (ErrorString ''open fragment: slice=%!s(uint64=7), err=disk full''),
      standard_view, snd (snd (Open faulty_env standard_view empty_world))) \<and>
   fst (snd (Open_body faulty_env standard_view empty_world)) =
     standard_view\<lparr>fragments := [(3, Ptr 0)]\<rparr> \<and>
   trace (snd (snd (Open faulty_env standard_view empty_world))) =
     [MkdirAll ''/tmp/v'', MkdirAll ''/tmp/v/fragments'', OsOpen ''/tmp/v/fragments'',
      FileReaddir ''/tmp/v/fragments'', FragmentOpen (Ptr 0),
      StatsCount NopStatsClient ''maxSlice'' 1, FragmentOpen (Ptr 1),
      FileClose ''/tmp/v/fragments'', FragmentClose (Ptr 0)]"
proof -
  let ?denied = "ErrOther ''permission denied''"
  let ?w1 = "log (MkdirAll (path discovered_view)) discovered_world"
  let ?dir = "Join [path discovered_view, ''fragments'']"
  let ?ro = "NewView ''/ro'' ''d'' ''f'' ''standard''"
  let ?err = "ErrorString ''open fragment: slice=%!s(uint64=7), err=disk full''"
  have root_made: "os_MkdirAll no_directory_env discovered_world (path discovered_view) = None"
    by code_simp
  have dir_fails: "os_MkdirAll no_directory_env ?w1 ?dir = Some ?denied"
    by code_simp
  have entries: "fragments discovered_view = [(3, Ptr 0), (7, Ptr 1)]"
    by code_simp
  have root: "path discovered_view = ''/tmp/v''"
    by code_simp
  have dir: "Join [''/tmp/v'', ''fragments''] = ''/tmp/v/fragments''"
    by code_simp
  from Open_failure
    [where e = no_directory_env and v = discovered_view and w = discovered_world
       and err = ?denied and frags = "Fragments discovered_view"]
    root_made dir_fails
  have second: "Open no_directory_env discovered_view discovered_world =
      (Some ?denied, discovered_view\<lparr>fragments := []\<rparr>,
       Close_loop no_directory_env (log (MkdirAll ?dir) ?w1) (Fragments discovered_view))"
    by blast
  from Open_failure
    [where e = no_directory_env and w = "log (MkdirAll ?dir) ?w1"
       and frags = "Fragments discovered_view"]
  have "trace (Close_loop no_directory_env (log (MkdirAll ?dir) ?w1) (Fragments discovered_view)) =
          trace (log (MkdirAll ?dir) ?w1) @ map FragmentClose (Fragments discovered_view)"
    by blast
  with second entries root dir
  have closed: "fst (Open no_directory_env discovered_view discovered_world) = Some ?denied \<and>
      fragments (fst (snd (Open no_directory_env discovered_view discovered_world))) = [] \<and>
      trace (snd (snd (Open no_directory_env discovered_view discovered_world))) =
        trace discovered_world @
          [MkdirAll ''/tmp/v'', MkdirAll ''/tmp/v/fragments'',
           FragmentClose (Ptr 0), FragmentClose (Ptr 1)]"
    by (simp add: Fragments_def trace_log)
  have root_fails: "os_MkdirAll no_directory_env empty_world (path ?ro) = Some ?denied"
    by code_simp
  from Open_failure [where e = no_directory_env and v = ?ro and w = empty_world and err = ?denied]
    root_fails
  have "Open no_directory_env ?ro empty_world =
      (Some ?denied, ?ro\<lparr>fragments := []\<rparr>,
       Close_loop no_directory_env (log (MkdirAll (path ?ro)) empty_world) (Fragments ?ro))"
    by blast
  then have first: "Open no_directory_env ?ro empty_world =
      (Some ?denied, ?ro, log (MkdirAll ''/ro'') empty_world)"
    by (simp add: NewView_def Fragments_def)
  have run: "Open faulty_env standard_view empty_world =
     (Some ?err, standard_view, snd (snd (Open faulty_env standard_view empty_world)))"
    by code_simp
  have body: "fst (snd (Open_body faulty_env standard_view empty_world)) =
     standard_view\<lparr>fragments := [(3, Ptr 0)]\<rparr>"
    by code_simp
  have history: "trace (snd (snd (Open faulty_env standard_view empty_world))) =
     [MkdirAll ''/tmp/v'', MkdirAll ''/tmp/v/fragments'', OsOpen ''/tmp/v/fragments'',
      FileReaddir ''/tmp/v/fragments'', FragmentOpen (Ptr 0),
      StatsCount NopStatsClient ''maxSlice'' 1, FragmentOpen (Ptr 1),
      FileClose ''/tmp/v/fragments'', FragmentClose (Ptr 0)]"
    by code_simp
  from dir_fails entries closed first run body history show ?thesis by blast
qed

section \<open>The invariant of the registry\<close>

lemma registry_inv_iff:
  "registry_inv v w =
     (\<forall>(sl, frag) \<in> set (fragments v).
        \<exists>a. frag = Ptr a \<and> a < length (heap w) \<and> Slice w a = sl)"
  by (auto simp: registry_inv_def list_all_iff split: ptr.splits)

lemma slices_kept_refl: "slices_kept w w"
  by (simp add: slices_kept_def)

lemma slices_kept_length:
  assumes "slices_kept w w'"
  shows "length (heap w) \<le> length (heap w')"
proof -
  from assms
  have "length (map frag_slice (take (length (heap w)) (heap w'))) =
        length (map frag_slice (heap w))"
    by (simp only: slices_kept_def)
  then show ?thesis by simp
qed

lemma slices_kept_Slice:
  assumes "slices_kept w w'" and "a < length (heap w)"
  shows "Slice w' a = Slice w a"
proof -
  have len: "length (heap w) \<le> length (heap w')"
    using assms(1) by (rule slices_kept_length)
  have "map frag_slice (take (length (heap w)) (heap w')) ! a = map frag_slice (heap w) ! a"
    using assms(1) by (simp only: slices_kept_def)
  with assms(2) len show ?thesis by (simp add: Slice_def)
qed

lemma slices_kept_trans:
  assumes "slices_kept w w1" and "slices_kept w1 w2"
  shows "slices_kept w w2"
proof -
  have l1: "length (heap w) \<le> length (heap w1)" using assms(1) by (rule slices_kept_length)
  have l2: "length (heap w1) \<le> length (heap w2)" using assms(2) by (rule slices_kept_length)
  have "map frag_slice (take (length (heap w)) (heap w2)) = map frag_slice (heap w)"
  proof (rule nth_equalityI)
    show "length (map frag_slice (take (length (heap w)) (heap w2))) =
          length (map frag_slice (heap w))"
      using l1 l2 by simp
  next
    fix i assume "i < length (map frag_slice (take (length (heap w)) (heap w2)))"
    then have i: "i < length (heap w)" by simp
    then have "Slice w2 i = Slice w1 i" using slices_kept_Slice [OF assms(2)] l1 by simp
    also have "\<dots> = Slice w i" using slices_kept_Slice [OF assms(1) i] .
    finally show "map frag_slice (take (length (heap w)) (heap w2)) ! i =
                  map frag_slice (heap w) ! i"
      using i l1 l2 by (simp add: Slice_def)
  qed
  then show ?thesis by (simp add: slices_kept_def)
qed

lemma slices_kept_opened_world: "slices_kept w (opened_world v sl w)"
  by (simp add: slices_kept_def heap_opened_world)

lemma slices_kept_newFragment: "slices_kept w (log ev (snd (newFragment v p sl w)))"
  by (simp add: slices_kept_def newFragment_eq heap_log)

lemma slices_kept_log: "slices_kept w (log ev w)"
  by (simp add: slices_kept_def heap_log)

lemma registry_inv_kept:
  assumes "registry_inv v w" and "slices_kept w w'" and "fragments v' = fragments v"
  shows "registry_inv v' w'"
  using assms slices_kept_length [OF assms(2)] slices_kept_Slice [OF assms(2)]
  by (fastforce simp: registry_inv_iff)

lemma set_update_subset: "set (AList.update k x al) \<subseteq> insert (k, x) (set al)"
  by (induction al) auto

lemma registry_inv_registered:
  assumes "registry_inv v w"
  shows "registry_inv (registered_view v sl w) (opened_world v sl w)"
proof -
  have old: "registry_inv v (opened_world v sl w)"
    using assms slices_kept_opened_world by (rule registry_inv_kept) simp
  have new: "length (heap w) < length (heap (opened_world v sl w)) \<and>
             Slice (opened_world v sl w) (length (heap w)) = sl"
    by (simp add: heap_opened_world Slice_def)
  show ?thesis
    unfolding registry_inv_iff
  proof (clarify)
    fix k frag assume "(k, frag) \<in> set (fragments (registered_view v sl w))"
    then have "(k, frag) = (sl, Ptr (length (heap w))) \<or> (k, frag) \<in> set (fragments v)"
      using set_update_subset [of sl "Ptr (length (heap w))" "fragments v"]
      by (auto simp: registered_view_def)
    then show "\<exists>a. frag = Ptr a \<and> a < length (heap (opened_world v sl w)) \<and>
                   Slice (opened_world v sl w) a = k"
      using old new by (auto simp: registry_inv_iff)
  qed
qed

lemma loop_inv:
  "registry_inv v w \<Longrightarrow> openFragments_loop e v w fis = (r, v', w') \<Longrightarrow>
     registry_inv v' w' \<and> slices_kept w w'"
proof (induction fis arbitrary: v w)
  case Nil
  then show ?case by (simp add: slices_kept_refl)
next
  case (Cons fi fis)
  show ?case
  proof (cases rule: loop_cases [of fi e v w fis])
    case skip
    with Cons show ?thesis by simp
  next
    case (failed sl err)
    with Cons.prems(2)
    have "v' = v" and "w' = log (FragmentOpen (Ptr (length (heap w))))
                              (snd (newFragment v (FragmentPath v sl) sl w))"
      by auto
    then show ?thesis
      using registry_inv_kept [OF Cons.prems(1) slices_kept_newFragment] slices_kept_newFragment
      by simp
  next
    case (opened sl)
    with Cons.prems(2)
    have run: "openFragments_loop e (registered_view v sl w) (opened_world v sl w) fis = (r, v', w')"
      by simp
    have "registry_inv v' w' \<and> slices_kept (opened_world v sl w) w'"
      using registry_inv_registered [OF Cons.prems(1)] run by (rule Cons.IH)
    then show ?thesis
      using slices_kept_trans [OF slices_kept_opened_world] by blast
  qed
qed

lemma openFragments_inv:
  assumes "registry_inv v w" and "openFragments e v w = (r, v', w')"
  shows "registry_inv v' w'"
proof -
  let ?dir = "Join [path v, ''fragments'']"
  let ?w1 = "log (OsOpen ?dir) w"
  let ?w2 = "log (FileReaddir ?dir) ?w1"
  have i1: "registry_inv v ?w1"
    using assms(1) slices_kept_log by (rule registry_inv_kept) simp
  have i2: "registry_inv v ?w2"
    using i1 slices_kept_log by (rule registry_inv_kept) simp
  have i3: "registry_inv v (log (FileClose ?dir) ?w2)"
    using i2 slices_kept_log by (rule registry_inv_kept) simp
  obtain r0 v0 w0
    where run: "openFragments_loop e v ?w2 (fst (File_Readdir e ?w1 ?dir)) = (r0, v0, w0)"
    by (cases "openFragments_loop e v ?w2 (fst (File_Readdir e ?w1 ?dir))") auto
  have "registry_inv v0 w0"
    using loop_inv [OF i2 run] by simp
  then have i4: "registry_inv v0 (log (FileClose ?dir) w0)"
    using slices_kept_log by (rule registry_inv_kept) simp
  show ?thesis
    using assms(2) run i1 i3 i4
    by (auto simp: openFragments_def Let_def split_beta split: if_splits option.splits)
qed

lemma Close_inv: "registry_inv (fst (snd (Close e v w))) (snd (snd (Close e v w)))"
  by (simp add: Close_def registry_inv_def)

lemma create_inv:
  assumes "registry_inv v w" and "CreateFragmentIfNotExists e v w sl = (r, v', w')"
  shows "registry_inv v' w'"
proof (cases rule: create_cases [of v sl e w])
  case cached
  with assms show ?thesis by (simp add: CreateFragmentIfNotExists_def)
next
  case (failed err)
  with assms(2)
  have "v' = v" and "w' = log (FragmentOpen (Ptr (length (heap w))))
                            (snd (newFragment v (FragmentPath v sl) sl w))"
    by (auto simp: CreateFragmentIfNotExists_def)
  then show ?thesis
    using registry_inv_kept [OF assms(1) slices_kept_newFragment] by simp
next
  case opened
  with assms(2) have "v' = registered_view v sl w" and "w' = opened_world v sl w"
    by (auto simp: CreateFragmentIfNotExists_def)
  then show ?thesis
    using registry_inv_registered [OF assms(1)] by simp
qed

lemma SetBit_inv:
  assumes "registry_inv v w" and "SetBit e v w b p = (r, v', w')"
  shows "registry_inv v' w'"
proof -
  obtain frag err v0 w0
    where created: "CreateFragmentIfNotExists e v w (p div SliceWidth e) = ((frag, err), v0, w0)"
    by (cases "CreateFragmentIfNotExists e v w (p div SliceWidth e)") auto
  have i: "registry_inv v0 w0" using assms(1) created by (rule create_inv)
  have "v' = v0 \<and> (w' = w0 \<or> w' = log (FragmentSetBit frag b p) w0)"
    using assms(2) created by (auto simp: SetBit_def Let_def split: option.splits)
  then show ?thesis
    using i registry_inv_kept [OF i slices_kept_log] by auto
qed

lemma ClearBit_inv:
  assumes "registry_inv v w" and "ClearBit e v w b p = (r, v', w')"
  shows "registry_inv v' w'"
proof -
  obtain frag err v0 w0
    where created: "CreateFragmentIfNotExists e v w (p div SliceWidth e) = ((frag, err), v0, w0)"
    by (cases "CreateFragmentIfNotExists e v w (p div SliceWidth e)") auto
  have i: "registry_inv v0 w0" using assms(1) created by (rule create_inv)
  have "v' = v0 \<and> (w' = w0 \<or> w' = log (FragmentClearBit frag b p) w0)"
    using assms(2) created by (auto simp: ClearBit_def Let_def split: option.splits)
  then show ?thesis
    using i registry_inv_kept [OF i slices_kept_log] by auto
qed

lemma Open_body_inv:
  assumes "registry_inv v w" and "Open_body e v w = (r, v', w')"
  shows "registry_inv v' w'"
proof -
  let ?w1 = "log (MkdirAll (path v)) w"
  let ?w2 = "log (MkdirAll (Join [path v, ''fragments''])) ?w1"
  have i1: "registry_inv v ?w1"
    using assms(1) slices_kept_log by (rule registry_inv_kept) simp
  have i2: "registry_inv v ?w2"
    using i1 slices_kept_log by (rule registry_inv_kept) simp
  show ?thesis
    using assms(2) i1 i2 openFragments_inv [OF i2]
    by (auto simp: Open_body_def Let_def split: option.splits)
qed

lemma Open_inv:
  assumes "registry_inv v w" and "Open e v w = (r, v', w')"
  shows "registry_inv v' w'"
proof (cases "Open_body e v w")
  case (fields r0 v0 w0)
  have i: "registry_inv v0 w0" using assms(1) fields by (rule Open_body_inv)
  show ?thesis
  proof (cases r0)
    case None
    with fields assms(2) i show ?thesis by (simp add: Open_def)
  next
    case (Some err)
    with fields assms(2)
    have "v' = fst (snd (Close e v0 w0))" and "w' = snd (snd (Close e v0 w0))"
      by (auto simp: Open_def split_beta)
    then show ?thesis using Close_inv by simp
  qed
qed

text \<open>
  Claim C7. The invariant of the registry (every fragment stored under a key s is
  allocated and reports s as its slice) holds of a new view and is preserved by
  \<^verbatim>\<open>openFragments\<close>, \<^verbatim>\<open>CreateFragmentIfNotExists\<close> and \<^verbatim>\<open>Close\<close>, and so by \<^verbatim>\<open>Open\<close>,
  \<^verbatim>\<open>SetBit\<close> and \<^verbatim>\<open>ClearBit\<close>, whatever they return.
\<close>

theorem registry_invariant_preserved:
  "registry_inv (NewView p d f n) w \<and>
   (registry_inv v w \<longrightarrow>
      registry_inv (fst (snd (openFragments e v w))) (snd (snd (openFragments e v w))) \<and>
      registry_inv (fst (snd (CreateFragmentIfNotExists e v w sl)))
                   (snd (snd (CreateFragmentIfNotExists e v w sl))) \<and>
      registry_inv (fst (snd (Close e v w))) (snd (snd (Close e v w))) \<and>
      registry_inv (fst (snd (Open e v w))) (snd (snd (Open e v w))) \<and>
      registry_inv (fst (snd (SetBit e v w bitmapID profileID)))
                   (snd (snd (SetBit e v w bitmapID profileID))) \<and>
      registry_inv (fst (snd (ClearBit e v w bitmapID profileID)))
                   (snd (snd (ClearBit e v w bitmapID profileID))))"
proof -
  have "registry_inv (NewView p d f n) w"
    by (simp add: registry_inv_def NewView_def)
  moreover have "registry_inv v w \<longrightarrow>
      registry_inv (fst (snd (openFragments e v w))) (snd (snd (openFragments e v w)))"
    using openFragments_inv [of v w e] by (metis prod.collapse)
  moreover have "registry_inv v w \<longrightarrow>
      registry_inv (fst (snd (CreateFragmentIfNotExists e v w sl)))
                   (snd (snd (CreateFragmentIfNotExists e v w sl)))"
    using create_inv [of v w e sl] by (metis prod.collapse)
  moreover have "registry_inv (fst (snd (Close e v w))) (snd (snd (Close e v w)))"
    by (rule Close_inv)
  moreover have "registry_inv v w \<longrightarrow>
      registry_inv (fst (snd (Open e v w))) (snd (snd (Open e v w)))"
    using Open_inv [of v w e] by (metis prod.collapse)
  moreover have "registry_inv v w \<longrightarrow>
      registry_inv (fst (snd (SetBit e v w bitmapID profileID)))
                   (snd (snd (SetBit e v w bitmapID profileID)))"
    using SetBit_inv [of v w e bitmapID profileID] by (metis prod.collapse)
  moreover have "registry_inv v w \<longrightarrow>
      registry_inv (fst (snd (ClearBit e v w bitmapID profileID)))
                   (snd (snd (ClearBit e v w bitmapID profileID)))"
    using ClearBit_inv [of v w e bitmapID profileID] by (metis prod.collapse)
  ultimately show ?thesis by blast
qed

theorem registry_invariant_preserved_witness:
  "registry_inv discovered_view discovered_world \<and>
   fragments discovered_view = [(3, Ptr 0), (7, Ptr 1)] \<and>
   map frag_slice (heap discovered_world) = [3, 7] \<and>
   registry_inv (fst (snd (openFragments faulty_env discovered_view discovered_world)))
                (snd (snd (openFragments faulty_env discovered_view discovered_world))) \<and>
   registry_inv (fst (snd (CreateFragmentIfNotExists quiet_env discovered_view discovered_world 9)))
                (snd (snd (CreateFragmentIfNotExists quiet_env discovered_view discovered_world 9))) \<and>
   registry_inv (fst (snd (Close faulty_env discovered_view discovered_world)))
                (snd (snd (Close faulty_env discovered_view discovered_world)))"
proof -
  have holds: "registry_inv discovered_view discovered_world"
    by code_simp
  have entries: "fragments discovered_view = [(3, Ptr 0), (7, Ptr 1)]"
    by code_simp
  have slices: "map frag_slice (heap discovered_world) = [3, 7]"
    by code_simp
  from holds entries slices
    registry_invariant_preserved [of "''/tmp/v''" "''d''" "''f''" "''standard''"
      discovered_world discovered_view faulty_env 9 1 6]
    registry_invariant_preserved [of "''/tmp/v''" "''d''" "''f''" "''standard''"
      discovered_world discovered_view quiet_env 9 1 6]
  show ?thesis by blast
qed

section \<open>What discovery registers\<close>

lemma foldl_max: "foldl (\<lambda>m (s::u64). if s > m then s else m) a xs = Max (set (a # xs))"
proof -
  have "(\<lambda>m (s::u64). if s > m then s else m) = (\<lambda>m s. max s m)"
    by (auto simp: fun_eq_iff max_def)
  then show ?thesis
    by (simp only: foldl_conv_fold Max.set_eq_fold)
qed

lemma MaxSlice_Max:
  "MaxSlice v = (if fragments v = [] then 0 else Max (fst ` set (fragments v)))"
proof (cases "fragments v = []")
  case True
  then show ?thesis by (simp add: MaxSlice_def)
next
  case False
  then have ne: "fst ` set (fragments v) \<noteq> {}" by simp
  have "MaxSlice v = Max (insert 0 (fst ` set (fragments v)))"
    by (simp add: MaxSlice_def foldl_max)
  also have "\<dots> = max 0 (Max (fst ` set (fragments v)))"
    using ne by (simp add: Max_insert)
  also have "\<dots> = Max (fst ` set (fragments v))"
    by (simp add: max_def)
  finally show ?thesis using False by simp
qed

lemma keys_registered_view:
  "fst ` set (fragments (registered_view v k w)) = insert k (fst ` set (fragments v))"
  by (simp add: registered_view_def dom_update)

lemma loop_registers:
  "openFragments_loop e v w fis = (None, v', w') \<Longrightarrow>
     fst ` set (fragments v') =
       fst ` set (fragments v) \<union> {sl. \<exists>fi \<in> set fis. recognized fi = Some sl} \<and>
     (\<forall>sl. (fragment v' sl \<noteq> nil) =
        (fragment v sl \<noteq> nil \<or> (\<exists>fi \<in> set fis. recognized fi = Some sl)))"
proof (induction fis arbitrary: v w)
  case Nil
  then show ?case by simp
next
  case (Cons fi fis)
  show ?case
  proof (cases rule: loop_cases [of fi e v w fis])
    case skip
    with Cons.prems have "openFragments_loop e v w fis = (None, v', w')" by simp
    from Cons.IH [OF this] skip(1) show ?thesis by simp
  next
    case (failed sl err)
    with Cons.prems show ?thesis by simp
  next
    case (opened sl)
    with Cons.prems
    have "openFragments_loop e (registered_view v sl w) (opened_world v sl w) fis = (None, v', w')"
      by simp
    from Cons.IH [OF this] opened(1) show ?thesis
      by (auto simp: keys_registered_view fragment_registered_view)
  qed
qed

text \<open>
  Claim C3. In the loop of \<^verbatim>\<open>openFragments\<close>, an entry that is a subdirectory or whose
  name \<^verbatim>\<open>ParseUint\<close> refuses is skipped without a trace: the run is the run over the
  recognised entries alone. When the loop ends without an error, the registered slices
  are those registered before together with the parsed numbers of the recognised entries,
  each with a fragment that is not nil. \<^verbatim>\<open>MaxSlice\<close> is the largest registered key, and
  zero for an empty registry. For the entries 3, 7, x and 12.tmp, opening a new view
  registers the slices 3 and 7 only, and \<^verbatim>\<open>MaxSlice\<close> is 7.
\<close>

theorem openFragments_discovery:
  assumes "openFragments_loop e v w fis = (None, v', w')"
  shows "openFragments_loop e v w (filter (\<lambda>fi. recognized fi \<noteq> None) fis) = (None, v', w') \<and>
         fst ` set (fragments v') =
           fst ` set (fragments v) \<union> {sl. \<exists>fi \<in> set fis. recognized fi = Some sl} \<and>
         (\<forall>sl. (fragment v' sl \<noteq> nil) =
            (fragment v sl \<noteq> nil \<or> (\<exists>fi \<in> set fis. recognized fi = Some sl))) \<and>
         MaxSlice v' = (if fragments v' = [] then 0 else Max (fst ` set (fragments v')))"
  using assms loop_filter [of e v w fis] loop_registers [OF assms] MaxSlice_Max [of v']
  by simp

theorem openFragments_discovery_witness:
  "fst (Open quiet_env standard_view empty_world) = None \<and>
   fragments discovered_view = [(3, Ptr 0), (7, Ptr 1)] \<and>
   fst ` set (fragments discovered_view) = {3, 7} \<and>
   MaxSlice discovered_view = 7 \<and>
   MaxSlice standard_view = 0 \<and>
   recognized (plain_file ''x'') = None \<and>
   recognized (plain_file ''12.tmp'') = None \<and>
   recognized (directory ''9'') = None \<and>
   recognized (plain_file ''007'') = Some 7 \<and>
   recognized (plain_file ''+3'') = None \<and>
   recognized (plain_file ''18446744073709551615'') = Some 18446744073709551615 \<and>
   recognized (plain_file ''18446744073709551616'') = None"
proof -
  let ?fis = "[plain_file ''3'', plain_file ''7'', plain_file ''x'', plain_file ''12.tmp'']"
  let ?w = "log (FileReaddir ''/tmp/v/fragments'') (log (OsOpen ''/tmp/v/fragments'')
              (log (MkdirAll ''/tmp/v/fragments'') (log (MkdirAll ''/tmp/v'') empty_world)))"
  have run: "openFragments_loop quiet_env standard_view ?w ?fis =
               (None, discovered_view, snd (snd (openFragments_loop quiet_env standard_view ?w ?fis)))"
    by code_simp
  have opened: "fst (Open quiet_env standard_view empty_world) = None"
    by code_simp
  have entries: "fragments discovered_view = [(3, Ptr 0), (7, Ptr 1)]"
    by code_simp
  have empty: "MaxSlice standard_view = 0"
    by code_simp
  have skipped: "recognized (plain_file ''x'') = None \<and>
                 recognized (plain_file ''12.tmp'') = None \<and>
                 recognized (directory ''9'') = None \<and>
                 recognized (plain_file ''007'') = Some 7 \<and>
                 recognized (plain_file ''+3'') = None \<and>
                 recognized (plain_file ''18446744073709551615'') = Some 18446744073709551615 \<and>
                 recognized (plain_file ''18446744073709551616'') = None"
    by code_simp
  from openFragments_discovery [OF run]
  have "MaxSlice discovered_view =
          (if fragments discovered_view = [] then 0
           else Max (fst ` set (fragments discovered_view)))"
    by blast
  with entries have largest: "MaxSlice discovered_view = 7" by simp
  from entries have keys: "fst ` set (fragments discovered_view) = {3, 7}" by simp
  from opened entries keys largest empty skipped show ?thesis by blast
qed

section \<open>The path of a fragment\<close>

lemma of_char_digit_char: "d < 10 \<Longrightarrow> (of_char (digit_char d) :: nat) = 48 + d"
  by (simp add: digit_char_def)

lemma FormatUint_nat_nonempty: "FormatUint_nat n \<noteq> []"
  by (subst FormatUint_nat.simps) simp

lemma FormatUint_nat_digits: "c \<in> set (FormatUint_nat n) \<Longrightarrow> is_digit c"
proof (induction n arbitrary: c rule: FormatUint_nat.induct)
  case (1 n)
  show ?case
  proof (cases "n < 10")
    case True
    with "1.prems" show ?thesis
      by (subst (asm) FormatUint_nat.simps) (simp add: is_digit_def of_char_digit_char)
  next
    case False
    with "1.prems" have "c \<in> set (FormatUint_nat (n div 10)) \<or> c = digit_char (n mod 10)"
      by (subst (asm) FormatUint_nat.simps) auto
    with False "1.IH" show ?thesis
      by (auto simp: is_digit_def of_char_digit_char)
  qed
qed

lemma FormatUint_nat_no_leading_zero: "n \<noteq> 0 \<Longrightarrow> hd (FormatUint_nat n) \<noteq> CHR ''0''"
proof (induction n rule: FormatUint_nat.induct)
  case (1 n)
  show ?case
  proof (cases "n < 10")
    case True
    have "(of_char (digit_char n) :: nat) \<noteq> of_char CHR ''0''"
      using True "1.prems" by (simp add: of_char_digit_char)
    then have "digit_char n \<noteq> CHR ''0''" by auto
    with True show ?thesis by (subst FormatUint_nat.simps) simp
  next
    case False
    then have "n div 10 \<noteq> 0" by simp
    with False "1.IH" have "hd (FormatUint_nat (n div 10)) \<noteq> CHR ''0''" by simp
    with False show ?thesis
      by (subst FormatUint_nat.simps) (simp add: FormatUint_nat_nonempty)
  qed
qed

lemma decimal_value_FormatUint_nat: "decimal_value (FormatUint_nat n) = n"
proof (induction n rule: FormatUint_nat.induct)
  case (1 n)
  show ?case
  proof (cases "n < 10")
    case True
    then show ?thesis
      by (subst FormatUint_nat.simps) (simp add: decimal_value_def of_char_digit_char)
  next
    case False
    with "1.IH" have "decimal_value (FormatUint_nat (n div 10)) = n div 10" by simp
    with False show ?thesis
      by (subst FormatUint_nat.simps) (simp add: decimal_value_def of_char_digit_char)
  qed
qed

lemma digits_no_separator: "Separator \<notin> set (FormatUint_nat n)"
proof
  assume "Separator \<in> set (FormatUint_nat n)"
  then have "is_digit Separator" by (rule FormatUint_nat_digits)
  then show False by (simp add: is_digit_def Separator_def)
qed

lemma digits_not_dots: "FormatUint_nat n \<noteq> ''.'' \<and> FormatUint_nat n \<noteq> ''..''"
proof -
  have "is_digit (hd (FormatUint_nat n))"
    by (rule FormatUint_nat_digits [OF hd_in_set [OF FormatUint_nat_nonempty]])
  moreover have "\<not> is_digit CHR ''.''" by (simp add: is_digit_def)
  ultimately show ?thesis by auto
qed

lemma split_sep_nonempty: "split_sep s \<noteq> []"
  by (cases s) simp_all

lemma split_sep_append: "split_sep (a @ Separator # b) = split_sep a @ split_sep b"
  by (induction a) (simp_all add: split_sep_nonempty)

lemma split_sep_plain: "Separator \<notin> set s \<Longrightarrow> split_sep s = [s]"
  by (induction s) auto

lemma clean_elems_append:
  "clean_elems rooted out (xs @ ys) = clean_elems rooted (rev (clean_elems rooted out xs)) ys"
  by (induction xs arbitrary: out) (auto split: list.splits)

lemma join_sep_snoc: "es \<noteq> [] \<Longrightarrow> join_sep (es @ [x]) = join_sep es @ Separator # x"
  by (induction es rule: join_sep.induct) simp_all

lemma clean_elems_no_empty:
  "[] \<notin> set out \<Longrightarrow> [] \<notin> set (clean_elems rooted out xs)"
proof (induction rooted out xs rule: clean_elems.induct)
  case (1 rooted out)
  then show ?case by simp
next
  case (2 rooted out e es)
  show ?case
  proof (cases "e = [] \<or> e = ''.''")
    case True
    with 2 show ?thesis by simp
  next
    case plain: False
    show ?thesis
    proof (cases "e = ''..''")
      case False
      with plain 2 show ?thesis by auto
    next
      case True
      show ?thesis
      proof (cases out)
        case Nil
        with True plain 2 show ?thesis by (cases rooted) simp_all
      next
        case (Cons t ts)
        with True plain 2 show ?thesis by (cases "t = ''..''") simp_all
      qed
    qed
  qed
qed

lemma join_sep_nonempty: "es \<noteq> [] \<Longrightarrow> [] \<notin> set es \<Longrightarrow> join_sep es \<noteq> []"
  by (induction es rule: join_sep.induct) simp_all
text \<open>
  A plain element appended to a path whose clean form has an element is appended to the
  clean form as it is written.
\<close>

lemma Clean_snoc:
  assumes ne: "q \<noteq> []" and elems: "clean_elems (hd q = Separator) [] (split_sep q) \<noteq> []"
    and d: "d \<noteq> []" "d \<noteq> ''.''" "d \<noteq> ''..''" "Separator \<notin> set d"
  shows "Clean (q @ Separator # d) = Clean q @ Separator # d"
proof -
  define rooted where "rooted = (hd q = Separator)"
  define E where "E = clean_elems rooted [] (split_sep q)"
  define pre where "pre = (if rooted then [Separator] else [])"
  have Ene: "E \<noteq> []" using elems by (simp add: E_def rooted_def)
  have "[] \<notin> set E" unfolding E_def by (rule clean_elems_no_empty) simp
  with Ene have "join_sep E \<noteq> []" by (rule join_sep_nonempty)
  with ne have q: "Clean q = pre @ join_sep E"
    by (simp add: Clean_def Let_def rooted_def E_def pre_def)
  have hd_eq: "hd (q @ Separator # d) = hd q" using ne by simp
  have "split_sep (q @ Separator # d) = split_sep q @ [d]"
    using d(4) by (simp add: split_sep_append split_sep_plain)
  then have "clean_elems rooted [] (split_sep (q @ Separator # d)) = E @ [d]"
    using d by (simp add: clean_elems_append E_def)
  moreover have "join_sep (E @ [d]) = join_sep E @ Separator # d"
    using Ene by (rule join_sep_snoc)
  ultimately have "Clean (q @ Separator # d) = pre @ join_sep E @ Separator # d"
    using hd_eq by (simp add: Clean_def Let_def rooted_def pre_def)
  with q show ?thesis by simp
qed

lemma split_sep_fragments: "split_sep ''fragments'' = [''fragments'']"
  by (simp add: Separator_def)

lemma FragmentPath_in_directory:
  "FragmentPath v sl = Join [path v, ''fragments''] @ ''/'' @ FormatUint sl"
proof -
  let ?f = "''fragments''"
  let ?d = "FormatUint sl"
  have d: "?d \<noteq> []" "?d \<noteq> ''.''" "?d \<noteq> ''..''" "Separator \<notin> set ?d"
    using digits_not_dots [of "unat sl"] digits_no_separator [of "unat sl"]
      FormatUint_nat_nonempty [of "unat sl"]
    by (simp_all add: FormatUint_def)
  show ?thesis
  proof (cases "path v = []")
    case True
    have "clean_elems (hd ?f = Separator) [] (split_sep ?f) \<noteq> []"
      by code_simp
    then have "Clean (?f @ Separator # ?d) = Clean ?f @ Separator # ?d"
      using d by (intro Clean_snoc) simp_all
    with True show ?thesis
      by (simp add: FragmentPath_def Join_def Separator_def)
  next
    case False
    let ?q = "path v @ Separator # ?f"
    have "split_sep ?q = split_sep (path v) @ [?f]"
      by (simp only: split_sep_append split_sep_fragments)
    then have "clean_elems (hd ?q = Separator) [] (split_sep ?q) \<noteq> []"
      by (simp add: clean_elems_append)
    then have "Clean (?q @ Separator # ?d) = Clean ?q @ Separator # ?d"
      using d by (intro Clean_snoc) simp_all
    with False show ?thesis
      by (simp add: FragmentPath_def Join_def Separator_def)
  qed
qed

lemma Join_clean_root:
  assumes clean: "Clean p = p" and nr: "p \<noteq> ''/''" and nd: "p \<noteq> ''.''"
  shows "Join [p, ''fragments''] = p @ ''/fragments''"
proof -
  define rooted where "rooted = (hd p = Separator)"
  define E where "E = clean_elems rooted [] (split_sep p)"
  define pre where "pre = (if rooted then [Separator] else [])"
  have pne: "p \<noteq> []" using clean by (auto simp: Clean_def)
  have p_eq: "p = pre @ join_sep E"
    using clean pne nd unfolding Clean_def Let_def rooted_def E_def pre_def
    by (auto split: if_splits)
  have "E \<noteq> []"
  proof
    assume "E = []"
    with p_eq have "p = pre" by simp
    with pne nr show False by (auto simp: pre_def Separator_def split: if_splits)
  qed
  then have "Clean (p @ Separator # ''fragments'') = Clean p @ Separator # ''fragments''"
    using pne by (intro Clean_snoc) (simp_all add: E_def rooted_def Separator_def)
  with clean pne show ?thesis
    by (simp add: Join_def Separator_def)
qed

text \<open>
  Claim C8. \<^verbatim>\<open>FragmentPath\<close> is a function of the view's root and the slice alone: the
  view's fragments directory, \<^verbatim>\<open>Join(root, "fragments")\<close>, followed by a separator and
  the slice in decimal. The decimal text is never empty, has digits only (so no
  extension), denotes the slice, and starts with 0 only for slice 0. For a root that is
  a clean path, other than \<^verbatim>\<open>/\<close> and \<^verbatim>\<open>.\<close>, the result is the root followed by
  \<^verbatim>\<open>/fragments/\<close> and the decimal text, character for character; \<^verbatim>\<open>FragmentPath(5)\<close> of
  the root \<^verbatim>\<open>/tmp/v\<close> is \<^verbatim>\<open>/tmp/v/fragments/5\<close>.
\<close>

theorem FragmentPath_format:
  "FragmentPath v sl = Join [path v, ''fragments''] @ ''/'' @ FormatUint sl \<and>
   (Clean (path v) = path v \<and> path v \<noteq> ''/'' \<and> path v \<noteq> ''.'' \<longrightarrow>
      FragmentPath v sl = path v @ ''/fragments/'' @ FormatUint sl) \<and>
   FormatUint sl \<noteq> [] \<and>
   list_all is_digit (FormatUint sl) \<and>
   decimal_value (FormatUint sl) = unat sl \<and>
   (hd (FormatUint sl) = CHR ''0'') = (sl = 0)"
proof -
  have dir: "FragmentPath v sl = Join [path v, ''fragments''] @ ''/'' @ FormatUint sl"
    by (rule FragmentPath_in_directory)
  have literal: "Clean (path v) = path v \<and> path v \<noteq> ''/'' \<and> path v \<noteq> ''.'' \<longrightarrow>
      FragmentPath v sl = path v @ ''/fragments/'' @ FormatUint sl"
    using dir Join_clean_root [of "path v"] by simp
  have nonempty: "FormatUint sl \<noteq> []"
    by (simp add: FormatUint_def FormatUint_nat_nonempty)
  have digits: "list_all is_digit (FormatUint sl)"
    by (simp add: FormatUint_def list_all_iff FormatUint_nat_digits)
  have denotes: "decimal_value (FormatUint sl) = unat sl"
    by (simp add: FormatUint_def decimal_value_FormatUint_nat)
  have "sl \<noteq> 0 \<Longrightarrow> hd (FormatUint sl) \<noteq> CHR ''0''"
    by (simp add: FormatUint_def FormatUint_nat_no_leading_zero unat_eq_0)
  moreover have "hd (FormatUint 0) = CHR ''0''" by code_simp
  ultimately have leading: "(hd (FormatUint sl) = CHR ''0'') = (sl = 0)" by auto
  from dir literal nonempty digits denotes leading show ?thesis by blast
qed

theorem FragmentPath_format_witness:
  "Clean (path standard_view) = path standard_view \<and>
   path standard_view = ''/tmp/v'' \<and>
   Join [path standard_view, ''fragments''] = ''/tmp/v/fragments'' \<and>
   FragmentPath standard_view 5 = ''/tmp/v/fragments/5''"
proof -
  have h1: "Clean (path standard_view) = path standard_view" by code_simp
  have h2: "path standard_view \<noteq> ''/''" by code_simp
  have h3: "path standard_view \<noteq> ''.''" by code_simp
  have five: "FormatUint 5 = ''5''" by code_simp
  have root: "path standard_view = ''/tmp/v''" by (simp add: standard_view_def NewView_def)
  have dir: "Join [path standard_view, ''fragments''] = ''/tmp/v/fragments''" by code_simp
  from FragmentPath_format [of standard_view 5] h1 h2 h3
  have "FragmentPath standard_view 5 = path standard_view @ ''/fragments/'' @ FormatUint 5"
    by blast
  with five root have "FragmentPath standard_view 5 = ''/tmp/v/fragments/5''" by simp
  with h1 root dir show ?thesis by blast
qed

text \<open>
  Without the condition on the root, the path is not the root followed by
  \<^verbatim>\<open>/fragments/5\<close>: \<^verbatim>\<open>Join\<close> drops an empty root, so the result is relative, and it
  drops the separator that a root ends with.
\<close>

theorem FragmentPath_counterexample:
  "FragmentPath (NewView [] ''d'' ''f'' ''standard'') 5 = ''fragments/5'' \<and>
   ''fragments/5'' \<noteq> path (NewView [] ''d'' ''f'' ''standard'') @ ''/fragments/'' @ FormatUint 5 \<and>
   FragmentPath (NewView ''data/'' ''d'' ''f'' ''standard'') 5 = ''data/fragments/5'' \<and>
   ''data/fragments/5'' \<noteq>
     path (NewView ''data/'' ''d'' ''f'' ''standard'') @ ''/fragments/'' @ FormatUint 5"
  by code_simp

end
